theory Spec2Isabelle
  imports Complex_Main
begin

section \<open>The density-grid tracker of density\_grid\_tracker.cpp\<close>

text \<open>
  Conventions of the embedding.
  \<^item> A C++ \<open>double\<close> (and the \<open>float\<close> coordinates of a PCL point) is a \<open>real\<close>:
    arithmetic is exact, there is no NaN and no infinity.
  \<^item> A C++ \<open>int\<close> is an \<open>int\<close> of HOL: the values are those the program computes as
    long as no \<open>int\<close> overflows.
  \<^item> Every element access of the density grid and of the spillover table is checked
    against the bounds the container was allocated with; an access outside them is the
    result \<open>Inl OutOfBounds\<close>. A \<open>std::vector\<close> asked for a negative number of elements
    (the count is converted to \<open>size_t\<close>) throws; that is \<open>Inl LengthError\<close>.
  \<^item> A loop over doubles that need not terminate is a partial function into \<open>option\<close>:
    \<open>None\<close> is the loop that never ends.
\<close>

subsection \<open>Constants of the anonymous namespace\<close>

definition kMaxDiscountPoints :: real where
  "kMaxDiscountPoints = 150"

definition kSpilloverRadius :: real where
  "kSpilloverRadius = 2"

definition kSigmaFactor :: real where
  "kSigmaFactor = 5 / 10"

definition kSigmaGridFactor :: real where
  "kSigmaGridFactor = 1"

definition kMinMeasurementVariance :: real where
  "kMinMeasurementVariance = 3 / 100"

definition kSmoothingFactor :: real where
  "kSmoothingFactor = 8 / 10"

definition kMeasurementDiscountFactor :: real where
  "kMeasurementDiscountFactor = 1"

definition k_NNTracking :: bool where
  "k_NNTracking = False"

definition kMaxXSize :: int where
  "kMaxXSize = (if k_NNTracking then 1 else 1000)"

definition kMaxYSize :: int where
  "kMaxYSize = (if k_NNTracking then 1 else 1000)"

definition kMaxZSize :: int where
  "kMaxZSize = (if k_NNTracking then 1 else 500)"

subsection \<open>Conversions of the C library\<close>

text \<open>\<open>round\<close> of \<open>math.h\<close> rounds to the nearest integer, halfway cases away from zero.\<close>

definition c_round :: "real \<Rightarrow> int" where
  "c_round v = (if 0 \<le> v then \<lfloor>v + 1 / 2\<rfloor> else \<lceil>v - 1 / 2\<rceil>)"

text \<open>The conversion of a \<open>double\<close> to \<open>int\<close> drops the fraction (towards zero).\<close>

definition c_trunc :: "real \<Rightarrow> int" where
  "c_trunc v = (if 0 \<le> v then \<lfloor>v\<rfloor> else \<lceil>v\<rceil>)"

subsection \<open>Data\<close>

text \<open>A point of a scan: the coordinates of \<open>pcl::PointXYZRGB\<close> (the colour is never read).\<close>

record point =
  px :: real
  py :: real
  pz :: real

datatype error = OutOfBounds | LengthError

type_synonym cell = "int \<times> int \<times> int"

text \<open>
  The data members of \<open>DensityGridTracker\<close>, named as in the class without the underscore
  at the end. \<open>density_grid\<close> is the nested vector \<open>density_grid_[i][j][k]\<close>, allocated once
  with \<open>kMaxXSize \<times> kMaxYSize \<times> kMaxZSize\<close> elements.
\<close>

record tracker =
  density_grid :: "cell \<Rightarrow> real"
  xy_grid_step :: real
  z_grid_step :: real
  discount_factor :: real
  min_pt :: point
  xSize :: int
  ySize :: int
  zSize :: int
  spillover_sigma_xy :: real
  spillover_sigma_z :: real
  num_spillover_steps_xy :: int
  num_spillover_steps_z :: int
  min_density :: real

text \<open>The constructor fills every element with \<open>log(kSmoothingFactor)\<close>; the other members
  are not initialised by it, so they are parameters here.\<close>

definition DensityGridTracker :: "tracker \<Rightarrow> tracker" where
  "DensityGridTracker uninit = uninit\<lparr>density_grid := (\<lambda>c. ln kSmoothingFactor)\<rparr>"

definition allocated :: "cell \<Rightarrow> bool" where
  "allocated c = (case c of (i, j, k) \<Rightarrow>
     0 \<le> i \<and> i < kMaxXSize \<and> 0 \<le> j \<and> j < kMaxYSize \<and> 0 \<le> k \<and> k < kMaxZSize)"

text \<open>The cells of the extent used in the current frame.\<close>

definition used_extent :: "tracker \<Rightarrow> cell \<Rightarrow> bool" where
  "used_extent st c = (case c of (i, j, k) \<Rightarrow>
     0 \<le> i \<and> i < xSize st \<and> 0 \<le> j \<and> j < ySize st \<and> 0 \<le> k \<and> k < zSize st)"

subsection \<open>\<open>pcl::getMinMax3D\<close>\<close>

text \<open>
  The library call returns the componentwise minimum and maximum of the cloud's points.
  It starts from \<open>FLT_MAX\<close> and \<open>-FLT_MAX\<close>, which is what an empty cloud gets.
\<close>

definition FLT_MAX :: real where
  "FLT_MAX = 340282346638528859811704183484516925440"

definition pmin :: "point \<Rightarrow> point \<Rightarrow> point" where
  "pmin a b = \<lparr>px = min (px a) (px b), py = min (py a) (py b), pz = min (pz a) (pz b)\<rparr>"

definition pmax :: "point \<Rightarrow> point \<Rightarrow> point" where
  "pmax a b = \<lparr>px = max (px a) (px b), py = max (py a) (py b), pz = max (pz a) (pz b)\<rparr>"

fun getMinMax3D :: "point list \<Rightarrow> point \<times> point" where
  "getMinMax3D [] =
     (\<lparr>px = FLT_MAX, py = FLT_MAX, pz = FLT_MAX\<rparr>, \<lparr>px = - FLT_MAX, py = - FLT_MAX, pz = - FLT_MAX\<rparr>)"
| "getMinMax3D (p # ps) = fold (\<lambda>q (lo, hi). (pmin lo q, pmax hi q)) ps (p, p)"

subsection \<open>\<open>computeDensityGridSize\<close>\<close>

text \<open>The effective horizontal resolution of the sensor at a distance, and the vertical one.\<close>

definition velodyne_horizontal_res :: "real \<Rightarrow> real \<Rightarrow> real" where
  "velodyne_horizontal_res horizontal_distance down_sample_factor =
     (2 * horizontal_distance * tan (18 / 100 / 2 * pi / 180)) / down_sample_factor"

definition velodyne_vertical_res :: "real \<Rightarrow> real \<Rightarrow> real" where
  "velodyne_vertical_res horizontal_distance down_sample_factor =
     22 / 10 * velodyne_horizontal_res horizontal_distance down_sample_factor"

text \<open>
  The two loops with \<open>std::fill\<close> set the elements \<open>[i][j][0 .. zSize_ - 1]\<close> for
  \<open>i < xSize_\<close> and \<open>j < ySize_\<close>, and no other element.
\<close>

definition reset_grid :: "int \<Rightarrow> int \<Rightarrow> int \<Rightarrow> real \<Rightarrow> (cell \<Rightarrow> real) \<Rightarrow> cell \<Rightarrow> real" where
  "reset_grid xs ys zs default_val g = (\<lambda>(i, j, k).
     if 0 \<le> i \<and> i < xs \<and> 0 \<le> j \<and> j < ys \<and> 0 \<le> k \<and> k < zs then default_val else g (i, j, k))"

definition computeDensityGridSize ::
  "tracker \<Rightarrow> point list \<Rightarrow> real \<Rightarrow> real \<Rightarrow> real \<Rightarrow> real \<Rightarrow> tracker" where
  "computeDensityGridSize st prev_points xy_stepSize z_stepSize horizontal_distance down_sample_factor =
    (let xy_step = xy_stepSize;
         z_step = z_stepSize;
         n = real (length prev_points);
         discount =
           (if n < kMaxDiscountPoints then kMeasurementDiscountFactor
            else kMeasurementDiscountFactor * (kMaxDiscountPoints / n));
         (min0, max0) = getMinMax3D prev_points;
         epsilon = 1 / 10000;
         min_x = px min0 - (2 * xy_step + epsilon);
         min_y = py min0 - (2 * xy_step + epsilon);
         z_range = pz max0 - pz min0;
         z_centering = \<bar>z_step - z_range\<bar> / 2;
         min_z = pz min0 - (2 * z_step + z_centering);
         max_x = px max0 + 2 * xy_step;
         max_y = py max0 + 2 * xy_step;
         max_z = pz max0 + 2 * z_step;
         xs = min kMaxXSize (max 1 \<lceil>(max_x - min_x) / xy_step\<rceil>);
         ys = min kMaxYSize (max 1 \<lceil>(max_y - min_y) / xy_step\<rceil>);
         zs = min kMaxZSize (max 1 \<lceil>(max_z - min_z) / z_step\<rceil>);
         default_val = ln kSmoothingFactor;
         sampling_error_xy = kSigmaGridFactor * xy_stepSize;
         resolution_error_xy =
           velodyne_horizontal_res horizontal_distance down_sample_factor * kSigmaFactor;
         noise_error_xy = kMinMeasurementVariance;
         sigma_xy = sqrt (sampling_error_xy ^ 2 + resolution_error_xy ^ 2 + noise_error_xy ^ 2);
         sampling_error_z = 0;
         resolution_error_z =
           velodyne_vertical_res horizontal_distance down_sample_factor * kSigmaFactor;
         noise_error_z = kMinMeasurementVariance;
         sigma_z = sqrt (sampling_error_z ^ 2 + resolution_error_z ^ 2 + noise_error_z ^ 2)
     in st\<lparr>density_grid := reset_grid xs ys zs default_val (density_grid st),
           xy_grid_step := xy_step,
           z_grid_step := z_step,
           discount_factor := discount,
           min_pt := \<lparr>px = min_x, py = min_y, pz = min_z\<rparr>,
           xSize := xs,
           ySize := ys,
           zSize := zs,
           spillover_sigma_xy := sigma_xy,
           spillover_sigma_z := sigma_z,
           num_spillover_steps_xy := \<lceil>kSpilloverRadius * sigma_xy / xy_step - 1\<rceil>,
           num_spillover_steps_z := max 1 \<lceil>kSpilloverRadius * sigma_z / z_step - 1\<rceil>,
           min_density := kSmoothingFactor\<rparr>)"

subsection \<open>Loops that can fail\<close>

text \<open>A \<open>for\<close> loop over the elements of a list whose body may fail: the first failure ends it.\<close>

fun foldE :: "('a \<Rightarrow> 's \<Rightarrow> error + 's) \<Rightarrow> 'a list \<Rightarrow> 's \<Rightarrow> error + 's" where
  "foldE f [] s = Inr s"
| "foldE f (a # as) s = (case f a s of Inl e \<Rightarrow> Inl e | Inr s' \<Rightarrow> foldE f as s')"

subsection \<open>\<open>computeDensityGrid\<close>\<close>

definition xy_exp_factor :: "tracker \<Rightarrow> real" where
  "xy_exp_factor st = - 1 * (xy_grid_step st) ^ 2 / (2 * (spillover_sigma_xy st) ^ 2)"

definition z_exp_factor :: "tracker \<Rightarrow> real" where
  "z_exp_factor st = - 1 * (z_grid_step st) ^ 2 / (2 * (spillover_sigma_z st) ^ 2)"

text \<open>The value the precomputation loop stores in \<open>spillovers[i][j][k]\<close>.\<close>

definition spillover_value :: "tracker \<Rightarrow> int \<Rightarrow> int \<Rightarrow> int \<Rightarrow> real" where
  "spillover_value st i j k =
     (let i_dist_sq = i ^ 2;
          j_dist_sq = j ^ 2;
          log_xy_density = real_of_int (i_dist_sq + j_dist_sq) * xy_exp_factor st;
          k_dist_sq = k ^ 2;
          log_z_density = real_of_int k_dist_sq * z_exp_factor st
      in ln (exp (log_xy_density + log_z_density) + min_density st))"

text \<open>
  A read of \<open>spillovers[i][j][k]\<close>. The table has \<open>num_spillover_steps_xy_ + 1\<close> elements
  along its first two axes and \<open>num_spillover_steps_z_ + 1\<close> along the third.
\<close>

definition spillovers :: "tracker \<Rightarrow> int \<Rightarrow> int \<Rightarrow> int \<Rightarrow> error + real" where
  "spillovers st i j k =
     (if 0 \<le> i \<and> i \<le> num_spillover_steps_xy st \<and> 0 \<le> j \<and> j \<le> num_spillover_steps_xy st \<and>
         0 \<le> k \<and> k \<le> num_spillover_steps_z st
      then Inr (spillover_value st i j k) else Inl OutOfBounds)"

text \<open>The statement \<open>density_grid_[x][y][z] = max(density_grid_[x][y][z], spillover)\<close>.\<close>

definition max_into :: "cell \<Rightarrow> real \<Rightarrow> (cell \<Rightarrow> real) \<Rightarrow> error + (cell \<Rightarrow> real)" where
  "max_into c spillover g =
     (if allocated c then Inr (g(c := max (g c) spillover)) else Inl OutOfBounds)"

text \<open>The same statement with the read of the table before it.\<close>

definition spill_cell :: "tracker \<Rightarrow> cell \<Rightarrow> cell \<Rightarrow> (cell \<Rightarrow> real) \<Rightarrow> error + (cell \<Rightarrow> real)" where
  "spill_cell st d c g = (case d of (x_diff, y_diff, z_diff) \<Rightarrow>
     (case spillovers st x_diff y_diff z_diff of
        Inl e \<Rightarrow> Inl e
      | Inr spillover \<Rightarrow> max_into c spillover g))"

text \<open>The indices of a point, and the bounds of its window along x and y.\<close>

definition x_index :: "tracker \<Rightarrow> point \<Rightarrow> int" where
  "x_index st pt = c_round (px pt / xy_grid_step st + (- px (min_pt st) / xy_grid_step st))"

definition y_index :: "tracker \<Rightarrow> point \<Rightarrow> int" where
  "y_index st pt = c_round (py pt / xy_grid_step st + (- py (min_pt st) / xy_grid_step st))"

definition z_index :: "tracker \<Rightarrow> point \<Rightarrow> int" where
  "z_index st pt = c_round (pz pt / z_grid_step st + (- pz (min_pt st) / z_grid_step st))"

definition max_x_index :: "tracker \<Rightarrow> point \<Rightarrow> int" where
  "max_x_index st pt = max 1 (min (xSize st - 2) (x_index st pt + num_spillover_steps_xy st))"

definition max_y_index :: "tracker \<Rightarrow> point \<Rightarrow> int" where
  "max_y_index st pt = max 1 (min (ySize st - 2) (y_index st pt + num_spillover_steps_xy st))"

definition min_x_index :: "tracker \<Rightarrow> point \<Rightarrow> int" where
  "min_x_index st pt = min (xSize st - 2) (max 1 (x_index st pt - num_spillover_steps_xy st))"

definition min_y_index :: "tracker \<Rightarrow> point \<Rightarrow> int" where
  "min_y_index st pt = min (ySize st - 2) (max 1 (y_index st pt - num_spillover_steps_xy st))"

text \<open>The branch for \<open>num_spillover_steps_z_ > 1\<close>: three nested loops.\<close>

definition max_z_index :: "tracker \<Rightarrow> point \<Rightarrow> int" where
  "max_z_index st pt = max 1 (min (zSize st - 2) (z_index st pt + num_spillover_steps_z st))"

definition min_z_index :: "tracker \<Rightarrow> point \<Rightarrow> int" where
  "min_z_index st pt = max 1 (min (zSize st - 2) (z_index st pt - num_spillover_steps_z st))"

definition spill_general :: "tracker \<Rightarrow> point \<Rightarrow> (cell \<Rightarrow> real) \<Rightarrow> error + (cell \<Rightarrow> real)" where
  "spill_general st pt =
     foldE (\<lambda>x_spill.
       let x_diff = \<bar>x_index st pt - x_spill\<bar> in
       foldE (\<lambda>y_spill.
         let y_diff = \<bar>y_index st pt - y_spill\<bar> in
         foldE (\<lambda>z_spill.
           let z_diff = \<bar>z_index st pt - z_spill\<bar> in
           spill_cell st (x_diff, y_diff, z_diff) (x_spill, y_spill, z_spill))
         [min_z_index st pt .. max_z_index st pt])
       [min_y_index st pt .. max_y_index st pt])
     [min_x_index st pt .. max_x_index st pt]"

text \<open>The other branch: one cell up and one cell down along z.\<close>

definition z_spill :: "tracker \<Rightarrow> point \<Rightarrow> int" where
  "z_spill st pt = min (max 1 (z_index st pt)) (zSize st - 2)"

definition z_spill_up :: "tracker \<Rightarrow> point \<Rightarrow> int" where
  "z_spill_up st pt = min (z_spill st pt + 1) (zSize st - 2)"

definition z_spill_down :: "tracker \<Rightarrow> point \<Rightarrow> int" where
  "z_spill_down st pt = max 1 (z_spill st pt - 1)"

definition spill_unit_z :: "tracker \<Rightarrow> point \<Rightarrow> (cell \<Rightarrow> real) \<Rightarrow> error + (cell \<Rightarrow> real)" where
  "spill_unit_z st pt =
     foldE (\<lambda>x_spill.
       let x_diff = \<bar>x_index st pt - x_spill\<bar> in
       foldE (\<lambda>y_spill.
         let y_diff = \<bar>y_index st pt - y_spill\<bar> in
         foldE (\<lambda>(d, c). spill_cell st d c)
           [((x_diff, y_diff, 0), (x_spill, y_spill, z_spill st pt)),
            ((x_diff, y_diff, 1), (x_spill, y_spill, z_spill_up st pt)),
            ((x_diff, y_diff, 1), (x_spill, y_spill, z_spill_down st pt))])
       [min_y_index st pt .. max_y_index st pt])
     [min_x_index st pt .. max_x_index st pt]"

text \<open>The body of the loop over the points.\<close>

definition spill_point :: "tracker \<Rightarrow> point \<Rightarrow> (cell \<Rightarrow> real) \<Rightarrow> error + (cell \<Rightarrow> real)" where
  "spill_point st pt =
     (if num_spillover_steps_z st > 1 then spill_general st pt else spill_unit_z st pt)"

text \<open>
  The table is allocated first (a negative size throws), then every point is spilled into
  the grid. The \<open>printf\<close> for a zero z radius changes nothing.
\<close>

definition computeDensityGrid :: "tracker \<Rightarrow> point list \<Rightarrow> error + tracker" where
  "computeDensityGrid st points =
     (if num_spillover_steps_xy st + 1 < 0 \<or> num_spillover_steps_z st + 1 < 0 then Inl LengthError
      else case foldE (spill_point st) points (density_grid st) of
             Inl e \<Rightarrow> Inl e
           | Inr g \<Rightarrow> Inr (st\<lparr>density_grid := g\<rparr>))"

subsection \<open>\<open>getLogProbability\<close>\<close>

text \<open>A read of \<open>density_grid_[i][j][k]\<close>.\<close>

definition grid_at :: "tracker \<Rightarrow> cell \<Rightarrow> error + real" where
  "grid_at st c = (if allocated c then Inr (density_grid st c) else Inl OutOfBounds)"

text \<open>The three shifted indices of a point of the current scan.\<close>

definition index_shifted :: "tracker \<Rightarrow> point \<Rightarrow> real \<Rightarrow> real \<Rightarrow> real \<Rightarrow> real \<Rightarrow> real \<Rightarrow> point \<Rightarrow> cell" where
  "index_shifted st minPt xy_gridStep z_gridStep x y z pt =
     (let x_offset = (x - px minPt) / xy_gridStep;
          y_offset = (y - py minPt) / xy_gridStep;
          z_offset = (z - pz minPt) / z_gridStep;
          x_index_shifted = min (max 0 (c_round (px pt / xy_gridStep + x_offset))) (xSize st - 1);
          y_index_shifted = min (max 0 (c_round (py pt / xy_gridStep + y_offset))) (ySize st - 1);
          z_index_shifted = min (max 0 (c_round (pz pt / z_gridStep + z_offset))) (zSize st - 1)
      in (x_index_shifted, y_index_shifted, z_index_shifted))"

text \<open>The motion model is the function \<open>computeScore\<close> of the caller's object.\<close>

definition getLogProbability ::
  "tracker \<Rightarrow> point list \<Rightarrow> point \<Rightarrow> real \<Rightarrow> real \<Rightarrow> (real \<Rightarrow> real \<Rightarrow> real \<Rightarrow> real) \<Rightarrow>
     real \<Rightarrow> real \<Rightarrow> real \<Rightarrow> error + real" where
  "getLogProbability st current_points minPt xy_gridStep z_gridStep computeScore x y z =
     (case foldE (\<lambda>pt total_log_density.
              case grid_at st (index_shifted st minPt xy_gridStep z_gridStep x y z pt) of
                Inl e \<Rightarrow> Inl e
              | Inr v \<Rightarrow> Inr (total_log_density + v))
            current_points 0 of
        Inl e \<Rightarrow> Inl e
      | Inr total_log_density \<Rightarrow>
          (let motion_model_prob = computeScore x y z;
               log_measurement_prob = total_log_density
           in Inr (ln motion_model_prob + discount_factor st * log_measurement_prob)))"

subsection \<open>\<open>createCandidateXYZTransforms\<close>\<close>

record XYZTransform =
  tx :: real
  ty :: real
  tz :: real
  volume :: real

text \<open>The range of z the function goes on with.\<close>

definition zRange_used :: "real \<Rightarrow> real \<times> real \<Rightarrow> real \<times> real" where
  "zRange_used z_step_size zRange_orig =
     (if z_step_size > \<bar>fst zRange_orig\<bar> then (0, 0) else (fst zRange_orig, snd zRange_orig))"

text \<open>The argument of \<open>reserve\<close>.\<close>

definition num_locations :: "real \<Rightarrow> real \<Rightarrow> real \<times> real \<Rightarrow> real \<times> real \<Rightarrow> real \<times> real \<Rightarrow> int" where
  "num_locations xy_step_size z_step_size xRange yRange zRange_orig =
     (let zRange = zRange_used z_step_size zRange_orig;
          num_x_locations = c_trunc ((snd xRange - fst xRange) / xy_step_size);
          num_y_locations = c_trunc ((snd yRange - fst yRange) / xy_step_size);
          num_z_locations =
            (if z_step_size = 0 then 1 else c_trunc ((snd zRange - fst zRange) / z_step_size))
      in num_x_locations * num_y_locations * num_z_locations)"

text \<open>
  \<open>reserve\<close> takes a \<open>size_t\<close>: a negative \<open>int\<close> becomes a number above \<open>max_size()\<close>,
  and the call throws \<open>std::length_error\<close>.
\<close>

definition reserve :: "int \<Rightarrow> 'a list \<Rightarrow> error + 'a list" where
  "reserve n ts = (if n < 0 then Inl LengthError else Inr ts)"

text \<open>The inner loop over y and the outer loop over x; each runs while its variable is at
  most the upper end of the range.\<close>

partial_function (option) y_loop ::
  "real \<Rightarrow> real \<Rightarrow> real \<Rightarrow> real \<Rightarrow> real \<Rightarrow> XYZTransform list \<Rightarrow> XYZTransform list option" where
  "y_loop xy_step_size vol y_hi x y ts =
     (if y \<le> y_hi
      then y_loop xy_step_size vol y_hi x (y + xy_step_size)
             (ts @ [\<lparr>tx = x, ty = y, tz = 0, volume = vol\<rparr>])
      else Some ts)"

partial_function (option) x_loop ::
  "real \<Rightarrow> real \<Rightarrow> real \<times> real \<Rightarrow> real \<Rightarrow> real \<Rightarrow> XYZTransform list \<Rightarrow> XYZTransform list option" where
  "x_loop xy_step_size vol yRange x_hi x ts =
     (if x \<le> x_hi
      then Option.bind (y_loop xy_step_size vol (snd yRange) x (fst yRange) ts)
             (x_loop xy_step_size vol yRange x_hi (x + xy_step_size))
      else Some ts)"

definition createCandidateXYZTransforms ::
  "real \<Rightarrow> real \<Rightarrow> real \<times> real \<Rightarrow> real \<times> real \<Rightarrow> real \<times> real \<Rightarrow> XYZTransform list \<Rightarrow>
     (error + XYZTransform list) option" where
  "createCandidateXYZTransforms xy_step_size z_step_size xRange yRange zRange_orig transforms =
     (case reserve (num_locations xy_step_size z_step_size xRange yRange zRange_orig) transforms of
        Inl e \<Rightarrow> Some (Inl e)
      | Inr ts \<Rightarrow>
          (let vol = xy_step_size ^ 2 * z_step_size
           in map_option Inr (x_loop xy_step_size vol yRange (snd xRange) (fst xRange) ts)))"

subsection \<open>The element updates of \<open>computeDensityGrid\<close>, in the order of the loops\<close>

text \<open>
  Each execution of the innermost statement reads one element of the table and updates
  one element of the grid. The lists below give, for a point, the pairs (table index, cell)
  in the order in which the loops of its branch reach them.
\<close>

definition general_writes :: "tracker \<Rightarrow> point \<Rightarrow> (cell \<times> cell) list" where
  "general_writes st pt =
     concat (map (\<lambda>x_spill.
       concat (map (\<lambda>y_spill.
         map (\<lambda>z_spill.
           ((\<bar>x_index st pt - x_spill\<bar>, \<bar>y_index st pt - y_spill\<bar>, \<bar>z_index st pt - z_spill\<bar>),
            (x_spill, y_spill, z_spill)))
         [min_z_index st pt .. max_z_index st pt])
       [min_y_index st pt .. max_y_index st pt]))
     [min_x_index st pt .. max_x_index st pt])"

definition unit_z_writes :: "tracker \<Rightarrow> point \<Rightarrow> (cell \<times> cell) list" where
  "unit_z_writes st pt =
     concat (map (\<lambda>x_spill.
       concat (map (\<lambda>y_spill.
         [((\<bar>x_index st pt - x_spill\<bar>, \<bar>y_index st pt - y_spill\<bar>, 0), (x_spill, y_spill, z_spill st pt)),
          ((\<bar>x_index st pt - x_spill\<bar>, \<bar>y_index st pt - y_spill\<bar>, 1), (x_spill, y_spill, z_spill_up st pt)),
          ((\<bar>x_index st pt - x_spill\<bar>, \<bar>y_index st pt - y_spill\<bar>, 1), (x_spill, y_spill, z_spill_down st pt))])
       [min_y_index st pt .. max_y_index st pt]))
     [min_x_index st pt .. max_x_index st pt])"

definition point_writes :: "tracker \<Rightarrow> point \<Rightarrow> (cell \<times> cell) list" where
  "point_writes st pt =
     (if num_spillover_steps_z st > 1 then general_writes st pt else unit_z_writes st pt)"

definition all_writes :: "tracker \<Rightarrow> point list \<Rightarrow> (cell \<times> cell) list" where
  "all_writes st points = concat (map (point_writes st) points)"

definition spill_writes :: "tracker \<Rightarrow> (cell \<times> cell) list \<Rightarrow> (cell \<Rightarrow> real) \<Rightarrow> error + (cell \<Rightarrow> real)" where
  "spill_writes st = foldE (\<lambda>(d, c). spill_cell st d c)"

text \<open>The indices a read of the table may use, and the value it then returns.\<close>

definition table_ok :: "tracker \<Rightarrow> cell \<Rightarrow> bool" where
  "table_ok st d = (case d of (i, j, k) \<Rightarrow>
     0 \<le> i \<and> i \<le> num_spillover_steps_xy st \<and> 0 \<le> j \<and> j \<le> num_spillover_steps_xy st \<and>
     0 \<le> k \<and> k \<le> num_spillover_steps_z st)"

definition sval :: "tracker \<Rightarrow> cell \<Rightarrow> real" where
  "sval st d = (case d of (i, j, k) \<Rightarrow> spillover_value st i j k)"


text \<open>The cells the loops of a point visit.\<close>

definition spill_window :: "tracker \<Rightarrow> point \<Rightarrow> cell set" where
  "spill_window st pt =
     {(x, y, z). min_x_index st pt \<le> x \<and> x \<le> max_x_index st pt \<and>
                 min_y_index st pt \<le> y \<and> y \<le> max_y_index st pt \<and>
                 (if num_spillover_steps_z st > 1
                  then min_z_index st pt \<le> z \<and> z \<le> max_z_index st pt
                  else z = z_spill st pt \<or> z = z_spill_up st pt \<or> z = z_spill_down st pt)}"

text \<open>
  The number of cells \<open>computeDensityGridSize\<close> computes along each axis before it clamps
  the number to \<open>1 .. kMax\<close>.
\<close>

definition x_cells :: "point list \<Rightarrow> real \<Rightarrow> int" where
  "x_cells ps xy = \<lceil>(px (snd (getMinMax3D ps)) + 2 * xy - (px (fst (getMinMax3D ps)) - (2 * xy + 1 / 10000))) / xy\<rceil>"

definition y_cells :: "point list \<Rightarrow> real \<Rightarrow> int" where
  "y_cells ps xy = \<lceil>(py (snd (getMinMax3D ps)) + 2 * xy - (py (fst (getMinMax3D ps)) - (2 * xy + 1 / 10000))) / xy\<rceil>"

definition z_cells :: "point list \<Rightarrow> real \<Rightarrow> int" where
  "z_cells ps z =
     \<lceil>(pz (snd (getMinMax3D ps)) + 2 * z -
        (pz (fst (getMinMax3D ps)) -
           (2 * z + \<bar>z - (pz (snd (getMinMax3D ps)) - pz (fst (getMinMax3D ps)))\<bar> / 2))) / z\<rceil>"

subsection \<open>Inputs of the examples\<close>

definition origin :: point where
  "origin = \<lparr>px = 0, py = 0, pz = 0\<rparr>"

text \<open>A tracker as the constructor leaves it, the members it does not set being zero.\<close>

definition fresh_tracker :: tracker where
  "fresh_tracker = DensityGridTracker
     \<lparr>density_grid = (\<lambda>c. 0), xy_grid_step = 0, z_grid_step = 0, discount_factor = 0,
      min_pt = origin, xSize = 0, ySize = 0, zSize = 0, spillover_sigma_xy = 0,
      spillover_sigma_z = 0, num_spillover_steps_xy = 0, num_spillover_steps_z = 0,
      min_density = 0\<rparr>"

text \<open>A scan of 1000 points that spans 2000 steps along x.\<close>

definition far_scan :: "point list" where
  "far_scan = \<lparr>px = 2000, py = 0, pz = 0\<rparr> # replicate 999 origin"

text \<open>A scan of two points that spans 331.8 steps along z.\<close>

definition tall_scan :: "point list" where
  "tall_scan = [origin, \<lparr>px = 0, py = 0, pz = 1659 / 5\<rparr>]"

text \<open>
  The vertical sigma the way the disabled expression \<open>kSigmaGridFactor * z_stepSize\<close> of the
  source would give it: with a sampling term.
\<close>

definition sigma_z_with_sampling :: "real \<Rightarrow> real \<Rightarrow> real \<Rightarrow> real" where
  "sigma_z_with_sampling z_stepSize horizontal_distance down_sample_factor =
     sqrt ((kSigmaGridFactor * z_stepSize) ^ 2 +
           (velodyne_vertical_res horizontal_distance down_sample_factor * kSigmaFactor) ^ 2 +
           kMinMeasurementVariance ^ 2)"

text \<open>
  The values a loop \<open>for (v = lo; v <= hi; v += s)\<close> takes for a step above zero, and the
  candidates two such loops, one inside the other, put out.
\<close>

definition lattice_steps :: "real \<Rightarrow> real \<Rightarrow> real \<Rightarrow> nat" where
  "lattice_steps s lo hi = (if lo \<le> hi then nat \<lfloor>(hi - lo) / s\<rfloor> + 1 else 0)"

definition lattice :: "real \<Rightarrow> real \<Rightarrow> real \<Rightarrow> real list" where
  "lattice s lo hi = map (\<lambda>k. lo + real k * s) [0..<lattice_steps s lo hi]"

definition candidates :: "real \<Rightarrow> real \<Rightarrow> real \<times> real \<Rightarrow> real \<times> real \<Rightarrow> XYZTransform list" where
  "candidates s vol xRange yRange =
     concat (map (\<lambda>x. map (\<lambda>y. \<lparr>tx = x, ty = y, tz = 0, volume = vol\<rparr>)
                        (lattice s (fst yRange) (snd yRange)))
                 (lattice s (fst xRange) (snd xRange)))"

section \<open>Properties\<close>

subsection \<open>The members \<open>computeDensityGridSize\<close> sets\<close>

text \<open>The function assigns every data member; this is the tracker it leaves.\<close>

lemma computeDensityGridSize_record:
  "computeDensityGridSize st0 ps xy z hdist dsf =
    \<lparr>density_grid = reset_grid (min kMaxXSize (max 1 (x_cells ps xy))) (min kMaxYSize (max 1 (y_cells ps xy)))
        (min kMaxZSize (max 1 (z_cells ps z))) (ln kSmoothingFactor) (density_grid st0),
     xy_grid_step = xy, z_grid_step = z,
     discount_factor = (if real (length ps) < kMaxDiscountPoints then kMeasurementDiscountFactor
            else kMeasurementDiscountFactor * (kMaxDiscountPoints / real (length ps))),
     min_pt = \<lparr>px = px (fst (getMinMax3D ps)) - (2 * xy + 1 / 10000),
           py = py (fst (getMinMax3D ps)) - (2 * xy + 1 / 10000),
           pz = pz (fst (getMinMax3D ps)) -
             (2 * z + \<bar>z - (pz (snd (getMinMax3D ps)) - pz (fst (getMinMax3D ps)))\<bar> / 2)\<rparr>,
     xSize = min kMaxXSize (max 1 (x_cells ps xy)),
     ySize = min kMaxYSize (max 1 (y_cells ps xy)),
     zSize = min kMaxZSize (max 1 (z_cells ps z)),
     spillover_sigma_xy = sqrt ((kSigmaGridFactor * xy) ^ 2 + (velodyne_horizontal_res hdist dsf * kSigmaFactor) ^ 2 +
           kMinMeasurementVariance ^ 2),
     spillover_sigma_z = sqrt (0 ^ 2 + (velodyne_vertical_res hdist dsf * kSigmaFactor) ^ 2 +
           kMinMeasurementVariance ^ 2),
     num_spillover_steps_xy = \<lceil>kSpilloverRadius * sqrt ((kSigmaGridFactor * xy) ^ 2 + (velodyne_horizontal_res hdist dsf * kSigmaFactor) ^ 2 +
           kMinMeasurementVariance ^ 2) / xy - 1\<rceil>,
     num_spillover_steps_z = max 1 \<lceil>kSpilloverRadius * sqrt (0 ^ 2 + (velodyne_vertical_res hdist dsf * kSigmaFactor) ^ 2 +
           kMinMeasurementVariance ^ 2) / z - 1\<rceil>,
     min_density = kSmoothingFactor\<rparr>"
  unfolding computeDensityGridSize_def Let_def x_cells_def y_cells_def z_cells_def
  by (cases st0; cases "getMinMax3D ps") (simp only: prod.case fst_conv snd_conv tracker.simps)

subsection \<open>The discount factor\<close>

text \<open>
  C5. With \<open>n\<close> points in the previous scan the discount factor is the base factor when
  \<open>n < 150\<close> and the base factor times \<open>150 / n\<close> otherwise; it is the base factor for
  \<open>n = 150\<close>, half of it for \<open>n = 300\<close>, and never more than 1.
\<close>

theorem discount_factor_ceiling:
  "discount_factor (computeDensityGridSize st prev_points xy z hdist dsf) =
     (if length prev_points < 150 then kMeasurementDiscountFactor
      else kMeasurementDiscountFactor * (150 / real (length prev_points))) \<and>
   (length prev_points = 150 \<longrightarrow>
      discount_factor (computeDensityGridSize st prev_points xy z hdist dsf) =
        kMeasurementDiscountFactor) \<and>
   (length prev_points = 300 \<longrightarrow>
      discount_factor (computeDensityGridSize st prev_points xy z hdist dsf) =
        kMeasurementDiscountFactor * (1 / 2)) \<and>
   discount_factor (computeDensityGridSize st prev_points xy z hdist dsf) \<le> 1"
proof -
  let ?n = "length prev_points"
  have d: "discount_factor (computeDensityGridSize st prev_points xy z hdist dsf) =
     (if real ?n < kMaxDiscountPoints then kMeasurementDiscountFactor
      else kMeasurementDiscountFactor * (kMaxDiscountPoints / real ?n))"
    by (simp add: computeDensityGridSize_record)
  have le: "150 / real ?n \<le> 1" if "\<not> ?n < 150"
    using that by (simp add: divide_le_eq)
  show ?thesis
    using le by (auto simp: d kMaxDiscountPoints_def kMeasurementDiscountFactor_def)
qed

theorem discount_factor_ceiling_witness:
  "length (replicate 150 origin) = 150 \<and>
   discount_factor (computeDensityGridSize fresh_tracker (replicate 150 origin) 1 1 0 1) =
     kMeasurementDiscountFactor \<and>
   length (replicate 300 origin) = 300 \<and>
   discount_factor (computeDensityGridSize fresh_tracker (replicate 300 origin) 1 1 0 1) =
     kMeasurementDiscountFactor * (1 / 2)"
  using discount_factor_ceiling [of fresh_tracker "replicate 150 origin" 1 1 0 1]
    discount_factor_ceiling [of fresh_tracker "replicate 300 origin" 1 1 0 1]
  by simp

subsection \<open>The two sigmas\<close>

text \<open>
  C7, as amended. The horizontal sigma is the square root of the sum of the squares of the
  sampling-step term \<open>kSigmaGridFactor * xy_stepSize\<close>, the resolution term and the noise
  floor. The vertical sigma is the square root of the sum of the squares of the vertical
  resolution term (the vertical resolution is 2.2 times the horizontal one) and the noise
  floor only: its sampling term is the constant 0, so it does not depend on a step size.
\<close>

theorem sigma_sum_of_squares:
  "spillover_sigma_xy (computeDensityGridSize st prev_points xy z hdist dsf) =
     sqrt ((kSigmaGridFactor * xy) ^ 2 + (velodyne_horizontal_res hdist dsf * kSigmaFactor) ^ 2 +
           kMinMeasurementVariance ^ 2) \<and>
   spillover_sigma_z (computeDensityGridSize st prev_points xy z hdist dsf) =
     sqrt (0 ^ 2 + (velodyne_vertical_res hdist dsf * kSigmaFactor) ^ 2 +
           kMinMeasurementVariance ^ 2) \<and>
   velodyne_vertical_res hdist dsf = 22 / 10 * velodyne_horizontal_res hdist dsf \<and>
   spillover_sigma_z (computeDensityGridSize st prev_points xy z hdist dsf) =
     spillover_sigma_z (computeDensityGridSize st prev_points xy' z' hdist dsf)"
  by (simp add: computeDensityGridSize_record velodyne_vertical_res_def)

theorem sigma_sum_of_squares_witness:
  "spillover_sigma_xy (computeDensityGridSize fresh_tracker [origin] 1 1 0 1) = sqrt (10009 / 10000) \<and>
   spillover_sigma_z (computeDensityGridSize fresh_tracker [origin] 1 1 0 1) = 3 / 100 \<and>
   spillover_sigma_z (computeDensityGridSize fresh_tracker [origin] 5 7 0 1) = 3 / 100"
proof -
  have "velodyne_horizontal_res 0 1 = 0" "velodyne_vertical_res 0 1 = 0"
    by (simp_all add: velodyne_vertical_res_def velodyne_horizontal_res_def)
  moreover have "sqrt ((3 / 100) ^ 2) = 3 / 100"
    by (simp only: real_sqrt_abs)
  ultimately show ?thesis
    using sigma_sum_of_squares [of fresh_tracker "[origin]" 1 1 0 1 5 7]
      sigma_sum_of_squares [of fresh_tracker "[origin]" 5 7 0 1 1 1]
    by (simp add: kSigmaGridFactor_def kMinMeasurementVariance_def power2_eq_square)
qed

text \<open>
  The claim as stated fails: for one point at the origin, both steps 1 and distance 0, the
  vertical sigma is not the one with a sampling term.
\<close>

theorem sigma_z_sampling_counterexample:
  "spillover_sigma_z (computeDensityGridSize fresh_tracker [origin] 1 1 0 1) \<noteq>
     sigma_z_with_sampling 1 0 1"
proof -
  have "spillover_sigma_z (computeDensityGridSize fresh_tracker [origin] 1 1 0 1) =
      sqrt (9 / 10000)"
    by (simp add: computeDensityGridSize_record velodyne_vertical_res_def
        velodyne_horizontal_res_def kMinMeasurementVariance_def power2_eq_square)
  moreover have "sigma_z_with_sampling 1 0 1 = sqrt (10009 / 10000)"
    by (simp add: sigma_z_with_sampling_def velodyne_vertical_res_def
        velodyne_horizontal_res_def kMinMeasurementVariance_def kSigmaGridFactor_def
        power2_eq_square)
  ultimately show ?thesis by simp
qed

subsection \<open>Loops that can fail\<close>

lemma foldE_append:
  "foldE f (xs @ ys) s = (case foldE f xs s of Inl e \<Rightarrow> Inl e | Inr s' \<Rightarrow> foldE f ys s')"
  by (induction xs arbitrary: s) (auto split: sum.splits)

lemma foldE_map: "foldE f (map h xs) = foldE (\<lambda>x. f (h x)) xs"
proof
  fix s show "foldE f (map h xs) s = foldE (\<lambda>x. f (h x)) xs s"
    by (induction xs arbitrary: s) (auto split: sum.splits)
qed

lemma foldE_concat: "foldE f (concat xss) = foldE (\<lambda>xs. foldE f xs) xss"
proof
  fix s show "foldE f (concat xss) s = foldE (\<lambda>xs. foldE f xs) xss s"
    by (induction xss arbitrary: s) (auto simp: foldE_append split: sum.splits)
qed

text \<open>The loops of a point perform the updates of its list, one after the other.\<close>

lemma spill_general_writes: "spill_general st pt g = spill_writes st (general_writes st pt) g"
  by (simp add: spill_general_def spill_writes_def general_writes_def foldE_concat foldE_map Let_def)

lemma spill_unit_z_writes: "spill_unit_z st pt g = spill_writes st (unit_z_writes st pt) g"
  by (simp add: spill_unit_z_def spill_writes_def unit_z_writes_def foldE_concat foldE_map Let_def)

lemma spill_point_writes: "spill_point st pt g = spill_writes st (point_writes st pt) g"
  by (simp add: spill_point_def point_writes_def spill_general_writes spill_unit_z_writes)

lemma foldE_spill_point:
  "foldE (spill_point st) pts g = spill_writes st (all_writes st pts) g"
proof -
  have "spill_point st = (\<lambda>pt. spill_writes st (point_writes st pt))"
    by (rule ext)+ (simp add: spill_point_writes)
  then show ?thesis
    by (simp add: all_writes_def spill_writes_def foldE_concat foldE_map)
qed

subsection \<open>The element updates\<close>

text \<open>
  A list of updates returns exactly when every table index and every cell in it is in
  range; it can only raise an element, leaves the cells it does not name as they were, and
  every element ends as its old value or as one of the table values combined into it.
\<close>

lemma spill_cell_eq:
  "spill_cell st d c g =
     (if table_ok st d \<and> allocated c then Inr (g(c := max (g c) (sval st d))) else Inl OutOfBounds)"
  by (auto simp: spill_cell_def max_into_def spillovers_def table_ok_def sval_def split: prod.splits)

lemma spill_writes_Nil: "spill_writes st [] g = Inr g"
  by (simp add: spill_writes_def)

lemma spill_writes_Cons:
  "spill_writes st ((d, c) # ws) g =
     (if table_ok st d \<and> allocated c then spill_writes st ws (g(c := max (g c) (sval st d)))
      else Inl OutOfBounds)"
  by (simp add: spill_writes_def spill_cell_eq)

lemma spill_writes_ok_iff:
  "(\<exists>g'. spill_writes st ws g = Inr g') \<longleftrightarrow> (\<forall>(d, c) \<in> set ws. table_ok st d \<and> allocated c)"
proof (induction ws arbitrary: g)
  case Nil
  then show ?case by (simp add: spill_writes_Nil)
next
  case (Cons w ws)
  obtain d c where w: "w = (d, c)" by (cases w)
  show ?case
  proof (cases "table_ok st d \<and> allocated c")
    case True
    let ?g1 = "g(c := max (g c) (sval st d))"
    have "(\<exists>g'. spill_writes st (w # ws) g = Inr g') = (\<exists>g'. spill_writes st ws ?g1 = Inr g')"
      using True by (simp add: w spill_writes_Cons)
    also have "\<dots> = (\<forall>(d, c) \<in> set ws. table_ok st d \<and> allocated c)"
      by (rule Cons.IH)
    also have "\<dots> = (\<forall>(d, c) \<in> set (w # ws). table_ok st d \<and> allocated c)"
      using True by (simp add: w)
    finally show ?thesis .
  next
    case False
    then show ?thesis by (auto simp: w spill_writes_Cons)
  qed
qed

lemma spill_writes_mono:
  "spill_writes st ws g = Inr g' \<Longrightarrow> g c \<le> g' c"
proof (induction ws arbitrary: g)
  case Nil
  then show ?case by (simp add: spill_writes_Nil)
next
  case (Cons w ws)
  obtain d c' where w: "w = (d, c')" by (cases w)
  from Cons.prems w have ok: "table_ok st d \<and> allocated c'"
    and rest: "spill_writes st ws (g(c' := max (g c') (sval st d))) = Inr g'"
    by (auto simp: spill_writes_Cons split: if_splits)
  have "g c \<le> (g(c' := max (g c') (sval st d))) c" by simp
  also have "\<dots> \<le> g' c" using Cons.IH [OF rest] .
  finally show ?case .
qed


lemma spill_writes_written:
  "spill_writes st ws g = Inr g' \<Longrightarrow> (d, c) \<in> set ws \<Longrightarrow> sval st d \<le> g' c"
proof (induction ws arbitrary: g)
  case Nil
  then show ?case by simp
next
  case (Cons w ws)
  obtain d' c' where w: "w = (d', c')" by (cases w)
  from Cons.prems w have rest: "spill_writes st ws (g(c' := max (g c') (sval st d'))) = Inr g'"
    by (auto simp: spill_writes_Cons split: if_splits)
  show ?case
  proof (cases "(d, c) = (d', c')")
    case True
    have "sval st d \<le> (g(c' := max (g c') (sval st d'))) c" using True by simp
    also have "\<dots> \<le> g' c" using spill_writes_mono [OF rest] .
    finally show ?thesis .
  next
    case False
    with Cons.prems w have "(d, c) \<in> set ws" by auto
    from Cons.IH [OF rest this] show ?thesis .
  qed
qed

lemma spill_writes_value:
  "spill_writes st ws g = Inr g' \<Longrightarrow> g' c = g c \<or> (\<exists>d. (d, c) \<in> set ws \<and> g' c = sval st d)"
proof (induction ws arbitrary: g)
  case Nil
  then show ?case by (simp add: spill_writes_Nil)
next
  case (Cons w ws)
  obtain d' c' where w: "w = (d', c')" by (cases w)
  let ?g1 = "g(c' := max (g c') (sval st d'))"
  from Cons.prems w have rest: "spill_writes st ws ?g1 = Inr g'"
    by (auto simp: spill_writes_Cons split: if_splits)
  from Cons.IH [OF rest]
  consider "g' c = ?g1 c" | d where "(d, c) \<in> set ws" "g' c = sval st d" by blast
  then show ?case
  proof cases
    case 1
    show ?thesis
    proof (cases "c = c' \<and> g c' < sval st d'")
      case True
      with 1 have "(d', c) \<in> set (w # ws)" "g' c = sval st d'" by (auto simp: w max_def)
      then show ?thesis by blast
    next
      case False
      with 1 have "g' c = g c" by (auto simp: max_def)
      then show ?thesis by simp
    qed
  next
    case 2
    then have "(d, c) \<in> set (w # ws)" by simp
    with 2 show ?thesis by blast
  qed
qed



subsection \<open>Windows and the table\<close>





lemma xy_exp_factor_le_0: "xy_exp_factor st \<le> 0"
  by (simp add: xy_exp_factor_def divide_nonneg_nonneg)

lemma z_exp_factor_le_0: "z_exp_factor st \<le> 0"
  by (simp add: z_exp_factor_def divide_nonneg_nonneg)

lemma sval_antimono:
  assumes md: "0 \<le> min_density st"
    and i: "\<bar>i'\<bar> \<le> \<bar>i\<bar>" and j: "\<bar>j'\<bar> \<le> \<bar>j\<bar>" and k: "\<bar>k'\<bar> \<le> \<bar>k\<bar>"
  shows "sval st (i, j, k) \<le> sval st (i', j', k')"
proof -
  let ?e = "\<lambda>i j k. real_of_int (i ^ 2 + j ^ 2) * xy_exp_factor st + real_of_int (k ^ 2) * z_exp_factor st"
  have "i' ^ 2 \<le> i ^ 2" "j' ^ 2 \<le> j ^ 2" "k' ^ 2 \<le> k ^ 2"
    using i j k by (simp_all only: abs_le_square_iff)
  then have xy: "real_of_int (i' ^ 2 + j' ^ 2) \<le> real_of_int (i ^ 2 + j ^ 2)"
    and z: "real_of_int (k' ^ 2) \<le> real_of_int (k ^ 2)"
    by linarith+
  have "real_of_int (i ^ 2 + j ^ 2) * xy_exp_factor st \<le> real_of_int (i' ^ 2 + j' ^ 2) * xy_exp_factor st"
    by (rule mult_right_mono_neg [OF xy xy_exp_factor_le_0])
  moreover have "real_of_int (k ^ 2) * z_exp_factor st \<le> real_of_int (k' ^ 2) * z_exp_factor st"
    by (rule mult_right_mono_neg [OF z z_exp_factor_le_0])
  ultimately have le: "exp (?e i j k) + min_density st \<le> exp (?e i' j' k') + min_density st"
    by simp
  have pos: "0 < exp (?e i j k) + min_density st"
    using md by (simp add: add_pos_nonneg)
  have "ln (exp (?e i j k) + min_density st) \<le> ln (exp (?e i' j' k') + min_density st)"
    using pos le by (subst ln_le_cancel_iff) linarith+
  then show ?thesis
    by (simp only: sval_def spillover_value_def Let_def prod.case)
qed

lemma sval_ge_background:
  assumes "0 < min_density st"
  shows "ln (min_density st) \<le> sval st d"
proof -
  obtain i j k where d: "d = (i, j, k)" by (cases d)
  let ?e = "real_of_int (i ^ 2 + j ^ 2) * xy_exp_factor st + real_of_int (k ^ 2) * z_exp_factor st"
  have "min_density st \<le> exp ?e + min_density st"
    by simp
  with assms have "ln (min_density st) \<le> ln (exp ?e + min_density st)"
    by (subst ln_le_cancel_iff) linarith+
  then show ?thesis
    by (simp only: d sval_def spillover_value_def Let_def prod.case)
qed

lemma in_general_writes:
  "(d, c) \<in> set (general_writes st pt) \<longleftrightarrow>
     (\<exists>x\<in>{min_x_index st pt .. max_x_index st pt}.
      \<exists>y\<in>{min_y_index st pt .. max_y_index st pt}.
      \<exists>z\<in>{min_z_index st pt .. max_z_index st pt}.
        d = (\<bar>x_index st pt - x\<bar>, \<bar>y_index st pt - y\<bar>, \<bar>z_index st pt - z\<bar>) \<and> c = (x, y, z))"
  by (auto simp: general_writes_def)

lemma in_unit_z_writes:
  "(d, c) \<in> set (unit_z_writes st pt) \<longleftrightarrow>
     (\<exists>x\<in>{min_x_index st pt .. max_x_index st pt}.
      \<exists>y\<in>{min_y_index st pt .. max_y_index st pt}.
        d = (\<bar>x_index st pt - x\<bar>, \<bar>y_index st pt - y\<bar>, 0) \<and> c = (x, y, z_spill st pt) \<or>
        d = (\<bar>x_index st pt - x\<bar>, \<bar>y_index st pt - y\<bar>, 1) \<and> c = (x, y, z_spill_up st pt) \<or>
        d = (\<bar>x_index st pt - x\<bar>, \<bar>y_index st pt - y\<bar>, 1) \<and> c = (x, y, z_spill_down st pt))"
  by (auto simp: unit_z_writes_def)


lemma window_point_writes:
  assumes "c \<in> spill_window st pt"
  shows "\<exists>d. (d, c) \<in> set (point_writes st pt)"
proof -
  obtain x y z where c: "c = (x, y, z)" by (cases c)
  let ?dx = "\<bar>x_index st pt - x\<bar>" and ?dy = "\<bar>y_index st pt - y\<bar>"
  from assms c have xy: "x \<in> {min_x_index st pt .. max_x_index st pt}"
      "y \<in> {min_y_index st pt .. max_y_index st pt}"
    by (simp_all add: spill_window_def)
  show ?thesis
  proof (cases "1 < num_spillover_steps_z st")
    case True
    with assms c have "z \<in> {min_z_index st pt .. max_z_index st pt}"
      by (simp add: spill_window_def)
    with xy have "((?dx, ?dy, \<bar>z_index st pt - z\<bar>), c) \<in> set (general_writes st pt)"
      unfolding in_general_writes c by blast
    with True show ?thesis unfolding point_writes_def by auto
  next
    case False
    with assms c have "z = z_spill st pt \<or> z = z_spill_up st pt \<or> z = z_spill_down st pt"
      by (simp add: spill_window_def)
    with xy have "((?dx, ?dy, 0), c) \<in> set (unit_z_writes st pt) \<or>
        ((?dx, ?dy, 1), c) \<in> set (unit_z_writes st pt)"
      unfolding in_unit_z_writes c by blast
    with False show ?thesis unfolding point_writes_def by auto
  qed
qed


subsection \<open>The state \<open>computeDensityGridSize\<close> leaves\<close>

lemma fold_minmax:
  "fold (\<lambda>q (lo, hi). (pmin lo q, pmax hi q)) ps (a, b) = (lo', hi') \<Longrightarrow>
     px lo' \<le> px a \<and> px b \<le> px hi' \<and> py lo' \<le> py a \<and> py b \<le> py hi' \<and>
     pz lo' \<le> pz a \<and> pz b \<le> pz hi' \<and>
     (\<forall>p \<in> set ps. px lo' \<le> px p \<and> px p \<le> px hi' \<and> py lo' \<le> py p \<and> py p \<le> py hi' \<and>
        pz lo' \<le> pz p \<and> pz p \<le> pz hi')"
proof (induction ps arbitrary: a b)
  case Nil
  then show ?case by simp
next
  case (Cons q ps)
  from Cons.prems have "fold (\<lambda>q (lo, hi). (pmin lo q, pmax hi q)) ps (pmin a q, pmax b q) = (lo', hi')"
    by simp
  from Cons.IH [OF this] show ?case
    by (auto simp: pmin_def pmax_def)
qed

lemma getMinMax3D_bounds:
  assumes "getMinMax3D ps = (lo, hi)" and "p \<in> set ps"
  shows "px lo \<le> px p \<and> px p \<le> px hi \<and> py lo \<le> py p \<and> py p \<le> py hi \<and>
     pz lo \<le> pz p \<and> pz p \<le> pz hi"
proof (cases ps)
  case Nil
  with assms show ?thesis by simp
next
  case (Cons q qs)
  with assms have "fold (\<lambda>q (lo, hi). (pmin lo q, pmax hi q)) qs (q, q) = (lo, hi)" by simp
  from fold_minmax [OF this] assms(2) Cons show ?thesis by auto
qed

lemma computeDensityGridSize_fields:
  fixes st0 ps xy z hdist dsf
  defines "st \<equiv> computeDensityGridSize st0 ps xy z hdist dsf"
  shows "xSize st = min kMaxXSize (max 1 (x_cells ps xy))"
    and "ySize st = min kMaxYSize (max 1 (y_cells ps xy))"
    and "zSize st = min kMaxZSize (max 1 (z_cells ps z))"
    and "xy_grid_step st = xy" and "z_grid_step st = z"
    and "min_density st = kSmoothingFactor"
    and "min_pt st = \<lparr>px = px (fst (getMinMax3D ps)) - (2 * xy + 1 / 10000),
           py = py (fst (getMinMax3D ps)) - (2 * xy + 1 / 10000),
           pz = pz (fst (getMinMax3D ps)) -
             (2 * z + \<bar>z - (pz (snd (getMinMax3D ps)) - pz (fst (getMinMax3D ps)))\<bar> / 2)\<rparr>"
    and "density_grid st = reset_grid (xSize st) (ySize st) (zSize st) (ln kSmoothingFactor) (density_grid st0)"
    and "num_spillover_steps_xy st = \<lceil>kSpilloverRadius * spillover_sigma_xy st / xy - 1\<rceil>"
    and "num_spillover_steps_z st = max 1 \<lceil>kSpilloverRadius * spillover_sigma_z st / z - 1\<rceil>"
  unfolding st_def
  by (simp_all add: computeDensityGridSize_record)

lemma computeDensityGridSize_sizes:
  fixes st0 ps xy z hdist dsf
  defines "st \<equiv> computeDensityGridSize st0 ps xy z hdist dsf"
  shows "1 \<le> xSize st \<and> xSize st \<le> kMaxXSize \<and> 1 \<le> ySize st \<and> ySize st \<le> kMaxYSize \<and>
     1 \<le> zSize st \<and> zSize st \<le> kMaxZSize"
  unfolding st_def computeDensityGridSize_fields
  by (simp add: kMaxXSize_def kMaxYSize_def kMaxZSize_def k_NNTracking_def)

lemma computeDensityGridSize_reset:
  "used_extent (computeDensityGridSize st0 ps xy z hdist dsf) c \<Longrightarrow>
     density_grid (computeDensityGridSize st0 ps xy z hdist dsf) c = ln kSmoothingFactor"
  by (cases c) (simp add: computeDensityGridSize_fields(8) reset_grid_def used_extent_def)

lemma computeDensityGridSize_untouched:
  "\<not> used_extent (computeDensityGridSize st0 ps xy z hdist dsf) c \<Longrightarrow>
     density_grid (computeDensityGridSize st0 ps xy z hdist dsf) c = density_grid st0 c"
  by (cases c) (auto simp add: computeDensityGridSize_fields(8) reset_grid_def used_extent_def)

lemma cells_lower:
  assumes "p \<in> set ps"
  shows "0 < xy \<Longrightarrow> 5 \<le> x_cells ps xy" and "0 < xy \<Longrightarrow> 5 \<le> y_cells ps xy"
    and "0 < z \<Longrightarrow> 4 \<le> z_cells ps z"
proof -
  obtain lo hi where mm: "getMinMax3D ps = (lo, hi)" by (cases "getMinMax3D ps")
  from getMinMax3D_bounds [OF mm assms]
  have b: "px lo \<le> px hi" "py lo \<le> py hi" "pz lo \<le> pz hi" by auto
  show "5 \<le> x_cells ps xy" if "0 < xy"
  proof -
    have "4 < (px hi + 2 * xy - (px lo - (2 * xy + 1 / 10000))) / xy"
      using that b by (simp add: field_simps)
    then show ?thesis unfolding x_cells_def mm by (simp add: less_ceiling_iff)
  qed
  show "5 \<le> y_cells ps xy" if "0 < xy"
  proof -
    have "4 < (py hi + 2 * xy - (py lo - (2 * xy + 1 / 10000))) / xy"
      using that b by (simp add: field_simps)
    then show ?thesis unfolding y_cells_def mm by (simp add: less_ceiling_iff)
  qed
  show "4 \<le> z_cells ps z" if "0 < z"
  proof -
    have "4 \<le> (pz hi + 2 * z - (pz lo - (2 * z + \<bar>z - (pz hi - pz lo)\<bar> / 2))) / z"
      using that b by (simp add: field_simps)
    then show ?thesis unfolding z_cells_def mm by (simp add: le_ceiling_iff)
  qed
qed

lemma c_round_ge: "real_of_int k \<le> v \<Longrightarrow> 0 \<le> v \<Longrightarrow> k \<le> c_round v"
  by (simp add: c_round_def le_floor_iff)

lemma c_round_le_ceiling:
  assumes "0 \<le> v" and "v \<le> w"
  shows "c_round v \<le> \<lceil>w\<rceil>"
proof -
  have "w \<le> real_of_int \<lceil>w\<rceil>" by (rule le_of_int_ceiling)
  with assms have "v + 1 / 2 < real_of_int \<lceil>w\<rceil> + 1" by linarith
  with assms show ?thesis by (simp add: c_round_def floor_le_iff)
qed

lemma axis_offset:
  fixes s lo hi v m :: real
  assumes s: "0 < s" and v: "lo \<le> v" "v \<le> hi" and m: "m \<le> lo - 2 * s"
  shows "2 \<le> v / s + (- m / s)" and "v / s + (- m / s) \<le> (hi + 2 * s - m) / s - 2"
proof -
  have eq: "v / s + (- m / s) = (v - m) / s"
    by (simp add: diff_divide_distrib)
  have "2 * s \<le> v - m" using v m by linarith
  then have "2 * s / s \<le> (v - m) / s" using s by (intro divide_right_mono) auto
  then have "2 \<le> (v - m) / s" using s by simp
  then show "2 \<le> v / s + (- m / s)" by (simp only: eq)
  have "(hi + 2 * s - m) / s - 2 = (hi - m) / s"
    using s by (simp add: field_simps)
  moreover have "(v - m) / s \<le> (hi - m) / s" using v s by (intro divide_right_mono) auto
  ultimately show "v / s + (- m / s) \<le> (hi + 2 * s - m) / s - 2" by (simp only: eq)
qed

lemma axis_index:
  fixes s lo hi v m :: real
  assumes s: "0 < s" and v: "lo \<le> v" "v \<le> hi" and m: "m \<le> lo - 2 * s"
  shows "2 \<le> c_round (v / s + (- m / s)) \<and> c_round (v / s + (- m / s)) \<le> \<lceil>(hi + 2 * s - m) / s\<rceil> - 2"
proof -
  let ?a = "v / s + (- m / s)" and ?E = "(hi + 2 * s - m) / s"
  note ao = axis_offset [OF assms]
  have "c_round ?a \<le> \<lceil>?E - 2\<rceil>" using ao by (intro c_round_le_ceiling) auto
  also have "\<dots> = \<lceil>?E\<rceil> - 2" by (metis ceiling_diff_numeral)
  finally have "c_round ?a \<le> \<lceil>?E\<rceil> - 2" .
  moreover have "2 \<le> c_round ?a" using ao by (intro c_round_ge) auto
  ultimately show ?thesis by simp
qed

lemma index_bounds:
  fixes st0 ps xy z hdist dsf
  defines "st \<equiv> computeDensityGridSize st0 ps xy z hdist dsf"
  assumes p: "p \<in> set ps"
  shows "0 < xy \<Longrightarrow> 2 \<le> x_index st p \<and> x_index st p \<le> x_cells ps xy - 2"
    and "0 < xy \<Longrightarrow> 2 \<le> y_index st p \<and> y_index st p \<le> y_cells ps xy - 2"
    and "0 < z \<Longrightarrow> 2 \<le> z_index st p \<and> z_index st p \<le> z_cells ps z - 2"
proof -
  obtain lo hi where mm: "getMinMax3D ps = (lo, hi)" by (cases "getMinMax3D ps")
  from getMinMax3D_bounds [OF mm p]
  have b: "px lo \<le> px p" "px p \<le> px hi" "py lo \<le> py p" "py p \<le> py hi"
    "pz lo \<le> pz p" "pz p \<le> pz hi" by auto
  have mp: "min_pt st = \<lparr>px = px lo - (2 * xy + 1 / 10000), py = py lo - (2 * xy + 1 / 10000),
      pz = pz lo - (2 * z + \<bar>z - (pz hi - pz lo)\<bar> / 2)\<rparr>"
    unfolding st_def computeDensityGridSize_fields mm by simp
  have steps: "xy_grid_step st = xy" "z_grid_step st = z"
    unfolding st_def computeDensityGridSize_fields by simp_all
  show "2 \<le> x_index st p \<and> x_index st p \<le> x_cells ps xy - 2" if xy: "0 < xy"
    using axis_index [OF xy b(1,2), of "px lo - (2 * xy + 1 / 10000)"]
    by (simp add: x_index_def x_cells_def mp steps mm)
  show "2 \<le> y_index st p \<and> y_index st p \<le> y_cells ps xy - 2" if xy: "0 < xy"
    using axis_index [OF xy b(3,4), of "py lo - (2 * xy + 1 / 10000)"]
    by (simp add: y_index_def y_cells_def mp steps mm)
  show "2 \<le> z_index st p \<and> z_index st p \<le> z_cells ps z - 2" if z: "0 < z"
    using axis_index [OF z b(5,6), of "pz lo - (2 * z + \<bar>z - (pz hi - pz lo)\<bar> / 2)"]
    by (simp add: z_index_def z_cells_def mp steps mm)
qed



subsection \<open>When the construction succeeds\<close>

lemma axis_diff_le:
  fixes n r i x :: int
  shows "3 \<le> n \<Longrightarrow> 1 - r \<le> i \<Longrightarrow> i \<le> n - 2 + r \<Longrightarrow>
    min (n - 2) (max 1 (i - r)) \<le> x \<Longrightarrow> x \<le> max 1 (min (n - 2) (i + r)) \<Longrightarrow>
    \<bar>i - x\<bar> \<le> r \<and> 1 \<le> x \<and> x \<le> n - 2"
  by arith

lemma axis_z_diff_le:
  fixes n r i x :: int
  shows "3 \<le> n \<Longrightarrow> 1 - r \<le> i \<Longrightarrow> i \<le> n - 2 + r \<Longrightarrow>
    max 1 (min (n - 2) (i - r)) \<le> x \<Longrightarrow> x \<le> max 1 (min (n - 2) (i + r)) \<Longrightarrow>
    \<bar>i - x\<bar> \<le> r \<and> 1 \<le> x \<and> x \<le> n - 2"
  by arith

text \<open>
  No access of a point is out of range when, along x and y, its index is within the radius
  of the interior; the general branch asks the same along z.
\<close>

lemma xy_window_ok:
  assumes sx: "3 \<le> xSize st" and sy: "3 \<le> ySize st"
    and ix: "1 - num_spillover_steps_xy st \<le> x_index st pt"
      "x_index st pt \<le> xSize st - 2 + num_spillover_steps_xy st"
    and iy: "1 - num_spillover_steps_xy st \<le> y_index st pt"
      "y_index st pt \<le> ySize st - 2 + num_spillover_steps_xy st"
    and x: "x \<in> {min_x_index st pt .. max_x_index st pt}"
    and y: "y \<in> {min_y_index st pt .. max_y_index st pt}"
  shows "\<bar>x_index st pt - x\<bar> \<le> num_spillover_steps_xy st \<and> 1 \<le> x \<and> x \<le> xSize st - 2 \<and>
         \<bar>y_index st pt - y\<bar> \<le> num_spillover_steps_xy st \<and> 1 \<le> y \<and> y \<le> ySize st - 2"
proof -
  have "\<bar>x_index st pt - x\<bar> \<le> num_spillover_steps_xy st \<and> 1 \<le> x \<and> x \<le> xSize st - 2"
    using x sx ix by (intro axis_diff_le) (auto simp: min_x_index_def max_x_index_def)
  moreover have "\<bar>y_index st pt - y\<bar> \<le> num_spillover_steps_xy st \<and> 1 \<le> y \<and> y \<le> ySize st - 2"
    using y sy iy by (intro axis_diff_le) (auto simp: min_y_index_def max_y_index_def)
  ultimately show ?thesis by simp
qed

lemma general_writes_ok:
  assumes sz: "3 \<le> xSize st" "xSize st \<le> kMaxXSize" "3 \<le> ySize st" "ySize st \<le> kMaxYSize"
      "3 \<le> zSize st" "zSize st \<le> kMaxZSize"
    and ix: "1 - num_spillover_steps_xy st \<le> x_index st pt"
      "x_index st pt \<le> xSize st - 2 + num_spillover_steps_xy st"
    and iy: "1 - num_spillover_steps_xy st \<le> y_index st pt"
      "y_index st pt \<le> ySize st - 2 + num_spillover_steps_xy st"
    and iz: "1 - num_spillover_steps_z st \<le> z_index st pt"
      "z_index st pt \<le> zSize st - 2 + num_spillover_steps_z st"
    and w: "(d, c) \<in> set (general_writes st pt)"
  shows "table_ok st d \<and> allocated c"
proof -
  from w obtain x y z where xyz: "x \<in> {min_x_index st pt .. max_x_index st pt}"
      "y \<in> {min_y_index st pt .. max_y_index st pt}" "z \<in> {min_z_index st pt .. max_z_index st pt}"
    and d: "d = (\<bar>x_index st pt - x\<bar>, \<bar>y_index st pt - y\<bar>, \<bar>z_index st pt - z\<bar>)"
    and c: "c = (x, y, z)"
    unfolding in_general_writes by blast
  have "\<bar>z_index st pt - z\<bar> \<le> num_spillover_steps_z st \<and> 1 \<le> z \<and> z \<le> zSize st - 2"
    using xyz(3) sz(5) iz by (intro axis_z_diff_le) (auto simp: min_z_index_def max_z_index_def)
  with xy_window_ok [OF sz(1,3) ix iy xyz(1,2)] sz show ?thesis
    by (simp add: d c table_ok_def allocated_def)
qed

lemma unit_z_writes_ok:
  assumes sz: "3 \<le> xSize st" "xSize st \<le> kMaxXSize" "3 \<le> ySize st" "ySize st \<le> kMaxYSize"
      "3 \<le> zSize st" "zSize st \<le> kMaxZSize"
    and r: "1 \<le> num_spillover_steps_z st"
    and ix: "1 - num_spillover_steps_xy st \<le> x_index st pt"
      "x_index st pt \<le> xSize st - 2 + num_spillover_steps_xy st"
    and iy: "1 - num_spillover_steps_xy st \<le> y_index st pt"
      "y_index st pt \<le> ySize st - 2 + num_spillover_steps_xy st"
    and w: "(d, c) \<in> set (unit_z_writes st pt)"
  shows "table_ok st d \<and> allocated c"
proof -
  have zs: "1 \<le> z_spill st pt \<and> z_spill st pt \<le> zSize st - 2"
    "1 \<le> z_spill_up st pt \<and> z_spill_up st pt \<le> zSize st - 2"
    "1 \<le> z_spill_down st pt \<and> z_spill_down st pt \<le> zSize st - 2"
    using sz(5) by (auto simp: z_spill_def z_spill_up_def z_spill_down_def)
  from w obtain x y k zc where xy: "x \<in> {min_x_index st pt .. max_x_index st pt}"
      "y \<in> {min_y_index st pt .. max_y_index st pt}"
    and d: "d = (\<bar>x_index st pt - x\<bar>, \<bar>y_index st pt - y\<bar>, k)" and k: "k = 0 \<or> k = 1"
    and c: "c = (x, y, zc)"
    and zc: "zc = z_spill st pt \<or> zc = z_spill_up st pt \<or> zc = z_spill_down st pt"
    unfolding in_unit_z_writes by blast
  from xy_window_ok [OF sz(1,3) ix iy xy] zs zc k r sz show ?thesis
    by (auto simp: d c table_ok_def allocated_def)
qed



lemma in_all_writes:
  "w \<in> set (all_writes st pts) \<longleftrightarrow> (\<exists>pt \<in> set pts. w \<in> set (point_writes st pt))"
  by (auto simp: all_writes_def)


lemma axis_window_interior:
  fixes n a b x :: int
  shows "3 \<le> n \<Longrightarrow> min (n - 2) (max 1 a) \<le> x \<Longrightarrow> x \<le> max 1 (min (n - 2) b) \<Longrightarrow>
    1 \<le> x \<and> x \<le> n - 2"
    and "3 \<le> n \<Longrightarrow> max 1 (min (n - 2) a) \<le> x \<Longrightarrow> x \<le> max 1 (min (n - 2) b) \<Longrightarrow>
    1 \<le> x \<and> x \<le> n - 2"
  by auto

text \<open>
  The cells a point updates are interior cells of the used extent, whatever the point's
  indices: no update of the grid is out of range.
\<close>

lemma point_writes_allocated:
  assumes sz: "3 \<le> xSize st" "xSize st \<le> kMaxXSize" "3 \<le> ySize st" "ySize st \<le> kMaxYSize"
      "3 \<le> zSize st" "zSize st \<le> kMaxZSize"
    and w: "(d, c) \<in> set (point_writes st pt)"
  shows "allocated c \<and> used_extent st c"
proof -
  have x: "1 \<le> x \<and> x \<le> xSize st - 2" if "x \<in> {min_x_index st pt .. max_x_index st pt}" for x
    using that sz(1) by (intro axis_window_interior(1)) (auto simp: min_x_index_def max_x_index_def)
  have y: "1 \<le> y \<and> y \<le> ySize st - 2" if "y \<in> {min_y_index st pt .. max_y_index st pt}" for y
    using that sz(3) by (intro axis_window_interior(1)) (auto simp: min_y_index_def max_y_index_def)
  have "\<exists>x y z. c = (x, y, z) \<and> x \<in> {min_x_index st pt .. max_x_index st pt} \<and>
      y \<in> {min_y_index st pt .. max_y_index st pt} \<and> 1 \<le> z \<and> z \<le> zSize st - 2"
  proof (cases "1 < num_spillover_steps_z st")
    case True
    with w have "(d, c) \<in> set (general_writes st pt)" by (simp add: point_writes_def)
    then obtain x y z where xyz: "x \<in> {min_x_index st pt .. max_x_index st pt}"
        "y \<in> {min_y_index st pt .. max_y_index st pt}" "z \<in> {min_z_index st pt .. max_z_index st pt}"
      and c: "c = (x, y, z)"
      unfolding in_general_writes by blast
    have "1 \<le> z \<and> z \<le> zSize st - 2"
      using xyz(3) sz(5) by (intro axis_window_interior(2)) (auto simp: min_z_index_def max_z_index_def)
    with xyz c show ?thesis by blast
  next
    case False
    have zs: "1 \<le> z_spill st pt \<and> z_spill st pt \<le> zSize st - 2"
      "1 \<le> z_spill_up st pt \<and> z_spill_up st pt \<le> zSize st - 2"
      "1 \<le> z_spill_down st pt \<and> z_spill_down st pt \<le> zSize st - 2"
      using sz(5) by (auto simp: z_spill_def z_spill_up_def z_spill_down_def)
    from w False have "(d, c) \<in> set (unit_z_writes st pt)" by (simp add: point_writes_def)
    then obtain x y zc where xy: "x \<in> {min_x_index st pt .. max_x_index st pt}"
        "y \<in> {min_y_index st pt .. max_y_index st pt}" and c: "c = (x, y, zc)"
      and zc: "zc = z_spill st pt \<or> zc = z_spill_up st pt \<or> zc = z_spill_down st pt"
      unfolding in_unit_z_writes by blast
    from zc zs have "1 \<le> zc \<and> zc \<le> zSize st - 2" by auto
    with xy c show ?thesis by blast
  qed
  then obtain x' y' z' where c: "c = (x', y', z')" and "x' \<in> {min_x_index st pt .. max_x_index st pt}"
    "y' \<in> {min_y_index st pt .. max_y_index st pt}" "1 \<le> z' \<and> z' \<le> zSize st - 2" by blast
  with x [of x'] y [of y'] sz show ?thesis
    by (simp add: c allocated_def used_extent_def)
qed

subsection \<open>One point at the origin\<close>

lemma origin_cells: "x_cells [origin] 1 = 5" "y_cells [origin] 1 = 5" "z_cells [origin] 1 = 5"
  by (simp_all add: x_cells_def y_cells_def z_cells_def origin_def)


lemma origin_scan_sizes:
  "xSize (computeDensityGridSize fresh_tracker [origin] 1 1 0 1) = 5"
  "ySize (computeDensityGridSize fresh_tracker [origin] 1 1 0 1) = 5"
  "zSize (computeDensityGridSize fresh_tracker [origin] 1 1 0 1) = 5"
  by (simp_all add: computeDensityGridSize_fields origin_cells kMaxXSize_def kMaxYSize_def kMaxZSize_def
      k_NNTracking_def)

subsection \<open>The grid after the construction\<close>






subsection \<open>Scoring a candidate\<close>

lemma index_shifted_grid [simp]:
  "index_shifted (st\<lparr>density_grid := g\<rparr>) = index_shifted st"
  by (intro ext) (simp add: index_shifted_def)

lemma index_shifted_used:
  assumes "1 \<le> xSize st" "1 \<le> ySize st" "1 \<le> zSize st"
  shows "used_extent st (index_shifted st minPt xy_gridStep z_gridStep x y z pt)"
  using assms by (auto simp: index_shifted_def used_extent_def Let_def)

lemma used_extent_allocated:
  assumes "xSize st \<le> kMaxXSize" "ySize st \<le> kMaxYSize" "zSize st \<le> kMaxZSize"
    and "used_extent st c"
  shows "allocated c"
  using assms by (cases c) (simp add: used_extent_def allocated_def)

lemma foldE_total_log_density:
  assumes "\<And>pt. pt \<in> set pts \<Longrightarrow> allocated (f pt)"
  shows "foldE (\<lambda>pt total_log_density.
            case grid_at st (f pt) of Inl e \<Rightarrow> Inl e | Inr v \<Rightarrow> Inr (total_log_density + v))
          pts acc
        = Inr (acc + (\<Sum>pt\<leftarrow>pts. density_grid st (f pt)))"
  using assms by (induction pts arbitrary: acc) (simp_all add: grid_at_def)

lemma getLogProbability_total:
  assumes sz: "1 \<le> xSize st" "xSize st \<le> kMaxXSize" "1 \<le> ySize st" "ySize st \<le> kMaxYSize"
    "1 \<le> zSize st" "zSize st \<le> kMaxZSize"
  shows "getLogProbability st current_points minPt xy_gridStep z_gridStep computeScore x y z =
     Inr (ln (computeScore x y z) + discount_factor st *
        (\<Sum>pt\<leftarrow>current_points. density_grid st (index_shifted st minPt xy_gridStep z_gridStep x y z pt)))"
proof -
  have "allocated (index_shifted st minPt xy_gridStep z_gridStep x y z pt)" for pt
    using sz by (intro used_extent_allocated [of st] index_shifted_used) auto
  then show ?thesis
    unfolding getLogProbability_def
    by (subst foldE_total_log_density) (simp_all add: Let_def)
qed



text \<open>
  C10. The reset of a frame leaves the elements outside the used extent as they were.
  Every cell \<open>getLogProbability\<close> reads lies in the used extent of the frame, so two grids
  that agree on the used extent give the same result: what the buffer holds outside the
  used extent does not reach any score.
\<close>

theorem stale_cells_not_read:
  fixes st0 prev xy zs hdist dsf
  defines "st \<equiv> computeDensityGridSize st0 prev xy zs hdist dsf"
  assumes agree: "\<forall>c. used_extent st c \<longrightarrow> g1 c = g2 c"
  shows "(\<forall>c. \<not> used_extent st c \<longrightarrow> density_grid st c = density_grid st0 c) \<and>
     (\<forall>pt. used_extent st (index_shifted st minPt xy_gridStep z_gridStep x y z pt)) \<and>
     (\<exists>v. getLogProbability (st\<lparr>density_grid := g1\<rparr>) current_points minPt xy_gridStep z_gridStep
             computeScore x y z = Inr v \<and>
           getLogProbability (st\<lparr>density_grid := g2\<rparr>) current_points minPt xy_gridStep z_gridStep
             computeScore x y z = Inr v)"
proof -
  note sz = computeDensityGridSize_sizes [of st0 prev xy zs hdist dsf, folded st_def]
  have used: "used_extent st (index_shifted st minPt xy_gridStep z_gridStep x y z pt)" for pt
    using sz by (intro index_shifted_used) auto
  have "g1 (index_shifted st minPt xy_gridStep z_gridStep x y z pt) =
      g2 (index_shifted st minPt xy_gridStep z_gridStep x y z pt)" for pt
    using agree used by blast
  then have "getLogProbability (st\<lparr>density_grid := g1\<rparr>) current_points minPt xy_gridStep z_gridStep
             computeScore x y z =
      getLogProbability (st\<lparr>density_grid := g2\<rparr>) current_points minPt xy_gridStep z_gridStep
             computeScore x y z"
    using sz by (simp add: getLogProbability_total)
  moreover have "\<exists>v. getLogProbability (st\<lparr>density_grid := g1\<rparr>) current_points minPt xy_gridStep
      z_gridStep computeScore x y z = Inr v"
    using sz by (simp add: getLogProbability_total)
  moreover have "\<forall>c. \<not> used_extent st c \<longrightarrow> density_grid st c = density_grid st0 c"
    unfolding st_def using computeDensityGridSize_untouched by blast
  ultimately show ?thesis using used by auto
qed

theorem stale_cells_not_read_witness:
  "getLogProbability
     ((computeDensityGridSize fresh_tracker [origin] 1 1 0 1)\<lparr>density_grid := (\<lambda>c. 0)\<rparr>)
     [origin] origin 1 1 (\<lambda>x y z. 1) 0 0 0 = Inr 0 \<and>
   getLogProbability
     ((computeDensityGridSize fresh_tracker [origin] 1 1 0 1)\<lparr>density_grid := (\<lambda>c. 0)((7, 7, 7) := 1)\<rparr>)
     [origin] origin 1 1 (\<lambda>x y z. 1) 0 0 0 = Inr 0"
proof -
  let ?st = "computeDensityGridSize fresh_tracker [origin] 1 1 0 1"
  let ?g1 = "(\<lambda>c. 0) :: cell \<Rightarrow> real" and ?g2 = "((\<lambda>c. 0)((7, 7, 7) := 1)) :: cell \<Rightarrow> real"
  have agree: "\<forall>c. used_extent ?st c \<longrightarrow> ?g1 c = ?g2 c"
    by (auto simp: used_extent_def origin_scan_sizes)
  from stale_cells_not_read [OF agree, of origin 1 1 0 0 0 "[origin]" "\<lambda>x y z. 1"]
  obtain v where v: "getLogProbability (?st\<lparr>density_grid := ?g1\<rparr>) [origin] origin 1 1 (\<lambda>x y z. 1) 0 0 0 = Inr v"
      "getLogProbability (?st\<lparr>density_grid := ?g2\<rparr>) [origin] origin 1 1 (\<lambda>x y z. 1) 0 0 0 = Inr v"
    by blast
  have "getLogProbability (?st\<lparr>density_grid := ?g1\<rparr>) [origin] origin 1 1 (\<lambda>x y z. 1) 0 0 0 = Inr 0"
    using computeDensityGridSize_sizes [of fresh_tracker "[origin]" 1 1 0 1]
    by (subst getLogProbability_total) simp_all
  with v show ?thesis by simp
qed

subsection \<open>The candidate generator\<close>

lemma lattice_steps_0: "hi < lo \<Longrightarrow> lattice_steps s lo hi = 0"
  by (simp add: lattice_steps_def)

lemma lattice_steps_Suc:
  assumes "0 < s" "lo \<le> hi"
  shows "lattice_steps s lo hi = Suc (lattice_steps s (lo + s) hi)"
proof (cases "lo + s \<le> hi")
  case True
  then have "0 \<le> (hi - (lo + s)) / s" using assms by simp
  then have nn: "0 \<le> \<lfloor>(hi - (lo + s)) / s\<rfloor>" by simp
  have "(hi - lo) / s = (hi - (lo + s)) / s + 1"
    using assms by (simp add: field_simps)
  then have "\<lfloor>(hi - lo) / s\<rfloor> = \<lfloor>(hi - (lo + s)) / s\<rfloor> + 1" by simp
  with nn True assms show ?thesis by (simp add: lattice_steps_def nat_add_distrib)
next
  case False
  then have "(hi - lo) / s < 1" using assms by simp
  moreover have "0 \<le> (hi - lo) / s" using assms by simp
  ultimately have "\<lfloor>(hi - lo) / s\<rfloor> = 0" by (simp add: floor_eq_iff)
  with False assms show ?thesis by (simp add: lattice_steps_def)
qed

lemma lattice_Nil: "hi < lo \<Longrightarrow> lattice s lo hi = []"
  by (simp add: lattice_def lattice_steps_0)

lemma lattice_Cons:
  assumes "0 < s" "lo \<le> hi"
  shows "lattice s lo hi = lo # lattice s (lo + s) hi"
proof -
  let ?n = "lattice_steps s (lo + s) hi"
  have "map (\<lambda>k. lo + real k * s) [0..<Suc ?n] =
      lo # map (\<lambda>k. lo + real k * s) (map Suc [0..<?n])"
    by (simp only: upt_conv_Cons [of 0 "Suc ?n"] map_Suc_upt [symmetric]) simp
  also have "map (\<lambda>k. lo + real k * s) (map Suc [0..<?n]) = map (\<lambda>k. lo + s + real k * s) [0..<?n]"
    by (simp add: algebra_simps)
  finally show ?thesis
    by (simp add: lattice_def lattice_steps_Suc [OF assms])
qed

lemma y_loop_lattice:
  assumes s: "0 < s"
  shows "y_loop s vol y_hi x y ts =
     Some (ts @ map (\<lambda>y. \<lparr>tx = x, ty = y, tz = 0, volume = vol\<rparr>) (lattice s y y_hi))"
proof (induction "lattice_steps s y y_hi" arbitrary: y ts)
  case 0
  then have "\<not> y \<le> y_hi" by (auto simp: lattice_steps_def split: if_splits)
  then show ?case by (subst y_loop.simps) (simp add: lattice_Nil)
next
  case (Suc n)
  then have le: "y \<le> y_hi" by (auto simp: lattice_steps_def split: if_splits)
  with Suc.hyps(2) s have "n = lattice_steps s (y + s) y_hi"
    by (simp add: lattice_steps_Suc)
  from Suc.hyps(1) [OF this] le show ?case
    by (subst y_loop.simps) (simp add: lattice_Cons [OF s le])
qed

lemma x_loop_lattice:
  assumes s: "0 < s"
  shows "x_loop s vol yRange x_hi x ts =
     Some (ts @ concat (map (\<lambda>x. map (\<lambda>y. \<lparr>tx = x, ty = y, tz = 0, volume = vol\<rparr>)
                                   (lattice s (fst yRange) (snd yRange)))
                            (lattice s x x_hi)))"
proof (induction "lattice_steps s x x_hi" arbitrary: x ts)
  case 0
  then have "\<not> x \<le> x_hi" by (auto simp: lattice_steps_def split: if_splits)
  then show ?case by (subst x_loop.simps) (simp add: lattice_Nil)
next
  case (Suc n)
  then have le: "x \<le> x_hi" by (auto simp: lattice_steps_def split: if_splits)
  with Suc.hyps(2) s have "n = lattice_steps s (x + s) x_hi"
    by (simp add: lattice_steps_Suc)
  from Suc.hyps(1) [OF this] le show ?case
    by (subst x_loop.simps) (simp add: lattice_Cons [OF s le] y_loop_lattice [OF s])
qed

lemma createCandidateXYZTransforms_lattice:
  assumes "0 < xy_step_size"
  shows "createCandidateXYZTransforms xy_step_size z_step_size xRange yRange zRange_orig ts =
     (if num_locations xy_step_size z_step_size xRange yRange zRange_orig < 0
      then Some (Inl LengthError)
      else Some (Inr (ts @ candidates xy_step_size (xy_step_size ^ 2 * z_step_size) xRange yRange)))"
  by (simp add: createCandidateXYZTransforms_def reserve_def Let_def x_loop_lattice [OF assms]
      candidates_def)

lemma lattice_unit: "lattice 1 (- 1) 1 = [- 1, 0, 1]"
  by (simp add: lattice_Cons lattice_Nil)

lemma nine_candidates:
  "createCandidateXYZTransforms 1 1 (- 1, 1) (- 1, 1) (0, 0) [] =
     Some (Inr (map (\<lambda>(x, y). \<lparr>tx = x, ty = y, tz = 0, volume = 1\<rparr>)
       [(- 1, - 1), (- 1, 0), (- 1, 1), (0, - 1), (0, 0), (0, 1), (1, - 1), (1, 0), (1, 1)]))"
  by (subst createCandidateXYZTransforms_lattice)
    (simp_all add: num_locations_def zRange_used_def c_trunc_def candidates_def lattice_unit)

text \<open>
  A z range \<open>first \<le> second\<close> that is narrower than the z step never makes the count
  negative, whether the function replaces it by \<open>(0, 0)\<close> or not.
\<close>

lemma narrow_z_range_count:
  assumes "fst zRange_orig \<le> snd zRange_orig"
    and "snd zRange_orig - fst zRange_orig < z_step_size"
  shows "num_locations xy_step_size z_step_size xRange yRange zRange_orig = 0"
proof -
  have z: "0 < z_step_size" using assms by linarith
  let ?w = "(snd zRange_orig - fst zRange_orig) / z_step_size"
  have "0 \<le> ?w" "?w < 1" using assms z by simp_all
  then have "c_trunc ?w = 0" by (simp add: c_trunc_def floor_eq_iff)
  moreover have "c_trunc (0 / z_step_size) = 0" by (simp add: c_trunc_def)
  ultimately show ?thesis
    using z by (simp add: num_locations_def zRange_used_def Let_def)
qed

lemma narrow_z_range_no_error:
  assumes "fst zRange_orig \<le> snd zRange_orig"
    and "snd zRange_orig - fst zRange_orig < z_step_size"
    and "0 < xy_step_size"
  shows "createCandidateXYZTransforms xy_step_size z_step_size xRange yRange zRange_orig ts =
     Some (Inr (ts @ candidates xy_step_size (xy_step_size ^ 2 * z_step_size) xRange yRange))"
  using assms(3) narrow_z_range_count [OF assms(1,2)]
  by (simp add: createCandidateXYZTransforms_lattice)



text \<open>
  C6. For steps 1, the empty x range \<open>(1, -1)\<close>, the y range \<open>(0, 5)\<close> and the z range
  \<open>(-1, 1)\<close> the count given to \<open>reserve\<close> is \<open>-2 * 5 * 2\<close>: the call throws and no
  candidate comes out, where the generator is to return the empty set.
\<close>

theorem reserve_negative_count:
  "createCandidateXYZTransforms 1 1 (1, - 1) (0, 5) (- 1, 1) [] = Some (Inl LengthError)"
  by (simp add: createCandidateXYZTransforms_def reserve_def num_locations_def zRange_used_def
      c_trunc_def)

subsection \<open>Scans larger than the grid\<close>

lemma fold_minmax_replicate:
  "fold (\<lambda>q (lo, hi). (pmin lo q, pmax hi q)) (replicate n q) (lo, hi) =
     (if n = 0 then (lo, hi) else (pmin lo q, pmax hi q))"
proof (induction n arbitrary: lo hi)
  case 0
  then show ?case by simp
next
  case (Suc n)
  have "pmin (pmin lo q) q = pmin lo q" "pmax (pmax hi q) q = pmax hi q"
    by (simp_all add: pmin_def pmax_def)
  with Suc show ?case by simp
qed

lemma far_scan_minmax: "getMinMax3D far_scan = (origin, \<lparr>px = 2000, py = 0, pz = 0\<rparr>)"
proof -
  have "getMinMax3D far_scan =
      fold (\<lambda>q (lo, hi). (pmin lo q, pmax hi q)) (replicate 999 origin)
        (\<lparr>px = 2000, py = 0, pz = 0\<rparr>, \<lparr>px = 2000, py = 0, pz = 0\<rparr>)"
    by (simp only: far_scan_def getMinMax3D.simps)
  also have "\<dots> = (pmin \<lparr>px = 2000, py = 0, pz = 0\<rparr> origin, pmax \<lparr>px = 2000, py = 0, pz = 0\<rparr> origin)"
    by (simp only: fold_minmax_replicate) simp
  finally show ?thesis by (simp add: pmin_def pmax_def origin_def)
qed

lemma tall_scan_minmax: "getMinMax3D tall_scan = (origin, \<lparr>px = 0, py = 0, pz = 1659 / 5\<rparr>)"
  by (simp add: tall_scan_def pmin_def pmax_def origin_def)

lemma ceil_sqrt_10009: "\<lceil>sqrt 10009 / 50\<rceil> = (3::int)"
proof (rule ceiling_unique)
  have "sqrt (100 ^ 2) < sqrt 10009" by (subst real_sqrt_less_iff) simp
  then have "100 < sqrt 10009" by simp
  then show "real_of_int 3 - 1 < sqrt 10009 / 50" by simp
  have "sqrt 10009 \<le> sqrt (150 ^ 2)" by (subst real_sqrt_le_iff) simp
  then have "sqrt 10009 \<le> 150" by simp
  then show "sqrt 10009 / 50 \<le> real_of_int 3" by simp
qed

lemma unit_steps_radius:
  "num_spillover_steps_xy (computeDensityGridSize st0 ps 1 1 0 1) = 2"
  "num_spillover_steps_z (computeDensityGridSize st0 ps 1 1 0 1) = 1"
  by (simp_all add: computeDensityGridSize_record kSpilloverRadius_def kSigmaGridFactor_def
      kSigmaFactor_def kMinMeasurementVariance_def velodyne_vertical_res_def
      velodyne_horizontal_res_def power2_eq_square real_sqrt_divide ceil_sqrt_10009)

lemma far_scan_state:
  "xSize (computeDensityGridSize st0 far_scan 1 1 0 1) = 1000"
  "ySize (computeDensityGridSize st0 far_scan 1 1 0 1) = 5"
  "zSize (computeDensityGridSize st0 far_scan 1 1 0 1) = 5"
  "min_pt (computeDensityGridSize st0 far_scan 1 1 0 1) =
     \<lparr>px = - 20001 / 10000, py = - 20001 / 10000, pz = - 5 / 2\<rparr>"
  by (simp_all add: computeDensityGridSize_fields x_cells_def y_cells_def z_cells_def far_scan_minmax
      origin_def kMaxXSize_def kMaxYSize_def kMaxZSize_def k_NNTracking_def)

lemma tall_scan_state:
  "xSize (computeDensityGridSize st0 tall_scan 1 1 0 1) = 5"
  "ySize (computeDensityGridSize st0 tall_scan 1 1 0 1) = 5"
  "zSize (computeDensityGridSize st0 tall_scan 1 1 0 1) = 500"
  "min_pt (computeDensityGridSize st0 tall_scan 1 1 0 1) =
     \<lparr>px = - 20001 / 10000, py = - 20001 / 10000, pz = - 1674 / 10\<rparr>"
  by (simp_all add: computeDensityGridSize_fields x_cells_def y_cells_def z_cells_def tall_scan_minmax
      origin_def kMaxXSize_def kMaxYSize_def kMaxZSize_def k_NNTracking_def)

lemma spill_writes_Inl: "spill_writes st ws g = Inl e \<Longrightarrow> e = OutOfBounds"
proof (induction ws arbitrary: g)
  case Nil
  then show ?case by (simp add: spill_writes_Nil)
next
  case (Cons w ws)
  obtain d c where w: "w = (d, c)" by (cases w)
  from Cons show ?case by (auto simp: w spill_writes_Cons split: if_splits)
qed

text \<open>
  C3. For \<open>far_scan\<close> (1000 points, steps 1, distance 0) the x dimension is clamped to
  \<open>kMaxXSize\<close>, and the spillover pass then reads \<open>spillovers[1004][1][0]\<close> for the far
  point while the table has 3 elements along its first axis: the construction does not
  stay within the bounds of the table.
\<close>

theorem clamped_axis_table_read:
  "length far_scan = 1000 \<and>
   xSize (computeDensityGridSize fresh_tracker far_scan 1 1 0 1) = kMaxXSize \<and>
   ((1004, 1, 0), (998, 1, 3)) \<in> set (all_writes (computeDensityGridSize fresh_tracker far_scan 1 1 0 1) far_scan) \<and>
   spillovers (computeDensityGridSize fresh_tracker far_scan 1 1 0 1) 1004 1 0 = Inl OutOfBounds \<and>
   computeDensityGrid (computeDensityGridSize fresh_tracker far_scan 1 1 0 1) far_scan = Inl OutOfBounds"
proof -
  let ?st = "computeDensityGridSize fresh_tracker far_scan 1 1 0 1"
  let ?far = "\<lparr>px = 2000, py = 0, pz = 0\<rparr>"
  note st = far_scan_state [of fresh_tracker] unit_steps_radius [of fresh_tracker far_scan]
    computeDensityGridSize_fields(4,5) [of fresh_tracker far_scan 1 1 0 1]
  have idx: "x_index ?st ?far = 2002" "y_index ?st ?far = 2" "z_index ?st ?far = 3"
    by (simp_all add: x_index_def y_index_def z_index_def st c_round_def)
  have win: "min_x_index ?st ?far = 998" "max_x_index ?st ?far = 998"
    "min_y_index ?st ?far = 1" "max_y_index ?st ?far = 3" "z_spill ?st ?far = 3"
    by (simp_all add: min_x_index_def max_x_index_def min_y_index_def max_y_index_def z_spill_def
        idx st)
  have "((1004, 1, 0), (998, 1, 3)) \<in> set (unit_z_writes ?st ?far)"
    unfolding in_unit_z_writes by (simp add: idx win)
  then have "((1004, 1, 0), (998, 1, 3)) \<in> set (point_writes ?st ?far)"
    by (simp add: point_writes_def st)
  then have mem: "((1004, 1, 0), (998, 1, 3)) \<in> set (all_writes ?st far_scan)"
    unfolding in_all_writes by (auto simp: far_scan_def)
  have bad: "\<not> table_ok ?st (1004, 1, 0)"
    by (simp add: table_ok_def st)
  have "\<not> (\<exists>g. spill_writes ?st (all_writes ?st far_scan) (density_grid ?st) = Inr g)"
    unfolding spill_writes_ok_iff using mem bad by blast
  then obtain e where "spill_writes ?st (all_writes ?st far_scan) (density_grid ?st) = Inl e"
    by (cases "spill_writes ?st (all_writes ?st far_scan) (density_grid ?st)") auto
  with spill_writes_Inl [OF this]
  have "spill_writes ?st (all_writes ?st far_scan) (density_grid ?st) = Inl OutOfBounds" by simp
  then have "computeDensityGrid ?st far_scan = Inl OutOfBounds"
    by (simp add: computeDensityGrid_def foldE_spill_point st)
  moreover have "spillovers ?st 1004 1 0 = Inl OutOfBounds"
    by (simp add: spillovers_def st)
  moreover have "length far_scan = 1000" by (simp add: far_scan_def)
  moreover have "xSize ?st = kMaxXSize" by (simp add: st kMaxXSize_def k_NNTracking_def)
  ultimately show ?thesis using mem by blast
qed


lemma foldE_spill_general:
  "foldE (spill_general st) pts g = spill_writes st (concat (map (general_writes st) pts)) g"
proof -
  have "spill_general st = (\<lambda>pt. spill_writes st (general_writes st pt))"
    by (rule ext)+ (simp add: spill_general_writes)
  then show ?thesis
    by (simp add: spill_writes_def foldE_concat foldE_map)
qed

lemma tall_scan_sval:
  "sval (computeDensityGridSize st0 tall_scan 1 1 0 1) (0, 0, 0) = ln (1 + 8 / 10)"
  "sval (computeDensityGridSize st0 tall_scan 1 1 0 1) (0, 0, 1) = ln (exp (- 5000 / 9) + 8 / 10)"
  by (simp_all add: sval_def spillover_value_def xy_exp_factor_def z_exp_factor_def
      computeDensityGridSize_record kSmoothingFactor_def kMinMeasurementVariance_def
      velodyne_vertical_res_def velodyne_horizontal_res_def power2_eq_square)

text \<open>
  C2. For \<open>tall_scan\<close> (steps 1, distance 0) the z radius is 1 and the z dimension is
  clamped to \<open>kMaxZSize\<close>; the point at the top has z index 499, outside the interior.
  The unit-z branch, which \<open>computeDensityGrid\<close> takes, and the three nested loops both
  return, and their grids differ at the cell \<open>(2, 2, 498)\<close>: the unit-z branch leaves
  \<open>log(1.8)\<close> there, the value for offset 0, the loops the value for the z offset 1.
\<close>

theorem unit_z_differs_from_general:
  "num_spillover_steps_z (computeDensityGridSize fresh_tracker tall_scan 1 1 0 1) = 1 \<and>
   zSize (computeDensityGridSize fresh_tracker tall_scan 1 1 0 1) = kMaxZSize \<and>
   (\<exists>st' g. computeDensityGrid (computeDensityGridSize fresh_tracker tall_scan 1 1 0 1) tall_scan = Inr st' \<and>
      foldE (spill_general (computeDensityGridSize fresh_tracker tall_scan 1 1 0 1)) tall_scan
        (density_grid (computeDensityGridSize fresh_tracker tall_scan 1 1 0 1)) = Inr g \<and>
      density_grid st' (2, 2, 498) = ln (1 + 8 / 10) \<and>
      g (2, 2, 498) = ln (exp (- 5000 / 9) + 8 / 10) \<and>
      g (2, 2, 498) < density_grid st' (2, 2, 498))"
proof -
  let ?st = "computeDensityGridSize fresh_tracker tall_scan 1 1 0 1"
  let ?top = "\<lparr>px = 0, py = 0, pz = 1659 / 5\<rparr>"
  let ?c = "(2, 2, 498) :: cell"
  note st = tall_scan_state [of fresh_tracker] unit_steps_radius [of fresh_tracker tall_scan]
    computeDensityGridSize_fields(4,5,6) [of fresh_tracker tall_scan 1 1 0 1]
  have idx: "x_index ?st origin = 2" "y_index ?st origin = 2" "z_index ?st origin = 167"
    "x_index ?st ?top = 2" "y_index ?st ?top = 2" "z_index ?st ?top = 499"
    by (simp_all add: x_index_def y_index_def z_index_def st c_round_def origin_def)
  have sizes: "3 \<le> xSize ?st" "xSize ?st \<le> kMaxXSize" "3 \<le> ySize ?st" "ySize ?st \<le> kMaxYSize"
    "3 \<le> zSize ?st" "zSize ?st \<le> kMaxZSize"
    by (simp_all add: st kMaxXSize_def kMaxYSize_def kMaxZSize_def k_NNTracking_def)
  have md: "0 \<le> min_density ?st" by (simp add: st kSmoothingFactor_def)
  have pts: "pt = origin \<or> pt = ?top" if "pt \<in> set tall_scan" for pt
    using that by (auto simp: tall_scan_def)
  have top: "?top \<in> set tall_scan" by (simp add: tall_scan_def)
  have win: "min_x_index ?st ?top = 1" "max_x_index ?st ?top = 3"
    "min_y_index ?st ?top = 1" "max_y_index ?st ?top = 3" "z_spill ?st ?top = 498"
    "min_z_index ?st origin = 166" "max_z_index ?st origin = 168"
    "min_z_index ?st ?top = 498" "max_z_index ?st ?top = 498"
    by (simp_all add: min_x_index_def max_x_index_def min_y_index_def max_y_index_def
        min_z_index_def max_z_index_def z_spill_def idx st)
  have used: "used_extent ?st ?c"
    by (simp add: used_extent_def st)
  have bg: "density_grid ?st ?c = ln kSmoothingFactor"
    using used by (rule computeDensityGridSize_reset)
  have bg_le: "ln kSmoothingFactor \<le> sval ?st d" for d
    using sval_ge_background [of ?st d] by (simp add: st kSmoothingFactor_def)
  have less: "sval ?st (0, 0, 1) < sval ?st (0, 0, 0)"
    unfolding tall_scan_sval by (subst ln_less_cancel_iff) (simp_all add: add_pos_pos)
  \<comment> \<open>the unit-z branch, which the tracker takes\<close>
  have "table_ok ?st d \<and> allocated c" if "(d, c) \<in> set (all_writes ?st tall_scan)" for d c
  proof -
    from that obtain pt where pt: "pt \<in> set tall_scan" and "(d, c) \<in> set (point_writes ?st pt)"
      unfolding in_all_writes by blast
    then have w: "(d, c) \<in> set (unit_z_writes ?st pt)" by (simp add: point_writes_def st)
    from pts [OF pt] show ?thesis
      using sizes w by (intro unit_z_writes_ok [of ?st pt d c]) (auto simp: idx st)
  qed
  then have "\<exists>g. spill_writes ?st (all_writes ?st tall_scan) (density_grid ?st) = Inr g"
    unfolding spill_writes_ok_iff by blast
  then obtain g1 where g1: "spill_writes ?st (all_writes ?st tall_scan) (density_grid ?st) = Inr g1"
    by blast
  then have unit: "computeDensityGrid ?st tall_scan = Inr (?st\<lparr>density_grid := g1\<rparr>)"
    by (simp add: computeDensityGrid_def foldE_spill_point st)
  have "((0, 0, 0), ?c) \<in> set (unit_z_writes ?st ?top)"
    unfolding in_unit_z_writes by (intro bexI [of _ 2]) (simp_all add: idx win)
  then have "((0, 0, 0), ?c) \<in> set (point_writes ?st ?top)"
    by (simp add: point_writes_def st)
  with top have "((0, 0, 0), ?c) \<in> set (all_writes ?st tall_scan)"
    unfolding in_all_writes by blast
  from spill_writes_written [OF g1 this]
  have lower1: "sval ?st (0, 0, 0) \<le> g1 ?c" .
  have upper1: "g1 ?c \<le> sval ?st (0, 0, 0)"
  proof -
    from spill_writes_value [OF g1, of ?c]
    consider "g1 ?c = density_grid ?st ?c" | d where "g1 ?c = sval ?st d" by blast
    then show ?thesis
    proof cases
      case 1
      then show ?thesis using bg bg_le [of "(0, 0, 0)"] by simp
    next
      case 2
      obtain i j k where d: "d = (i, j, k)" by (cases d)
      have "sval ?st (i, j, k) \<le> sval ?st (0, 0, 0)"
        by (intro sval_antimono [OF md]) simp_all
      with 2 d show ?thesis by simp
    qed
  qed
  from lower1 upper1 have v1: "g1 ?c = ln (1 + 8 / 10)"
    by (simp add: tall_scan_sval)
  \<comment> \<open>the three nested loops with the same radius\<close>
  let ?gw = "concat (map (general_writes ?st) tall_scan)"
  have "table_ok ?st d \<and> allocated c" if "(d, c) \<in> set ?gw" for d c
  proof -
    from that obtain pt where pt: "pt \<in> set tall_scan" and w: "(d, c) \<in> set (general_writes ?st pt)"
      by auto
    from pts [OF pt] show ?thesis
      using sizes w by (intro general_writes_ok [of ?st pt d c]) (auto simp: idx st)
  qed
  then have "\<exists>g. spill_writes ?st ?gw (density_grid ?st) = Inr g"
    unfolding spill_writes_ok_iff by blast
  then obtain g2 where g2: "spill_writes ?st ?gw (density_grid ?st) = Inr g2"
    by blast
  have only: "d = (0, 0, 1)" if "(d, ?c) \<in> set ?gw" for d
  proof -
    from that obtain pt where pt: "pt \<in> set tall_scan" and w: "(d, ?c) \<in> set (general_writes ?st pt)"
      by auto
    from w have z: "498 \<in> {min_z_index ?st pt .. max_z_index ?st pt}"
      and d: "d = (\<bar>x_index ?st pt - 2\<bar>, \<bar>y_index ?st pt - 2\<bar>, \<bar>z_index ?st pt - 498\<bar>)"
      unfolding in_general_writes by auto
    from pts [OF pt] z win have "pt = ?top" by auto
    with d show ?thesis by (simp add: idx)
  qed
  have "((0, 0, 1), ?c) \<in> set (general_writes ?st ?top)"
    unfolding in_general_writes by (intro bexI [of _ 2] bexI [of _ 498]) (simp_all add: idx win)
  with top have "((0, 0, 1), ?c) \<in> set ?gw" by auto
  from spill_writes_written [OF g2 this]
  have lower2: "sval ?st (0, 0, 1) \<le> g2 ?c" .
  have upper2: "g2 ?c \<le> sval ?st (0, 0, 1)"
  proof -
    from spill_writes_value [OF g2, of ?c]
    consider "g2 ?c = density_grid ?st ?c" | d where "(d, ?c) \<in> set ?gw" "g2 ?c = sval ?st d"
      by blast
    then show ?thesis
    proof cases
      case 1
      then show ?thesis using bg bg_le [of "(0, 0, 1)"] by simp
    next
      case 2
      with only show ?thesis by simp
    qed
  qed
  from lower2 upper2 have v2: "g2 ?c = ln (exp (- 5000 / 9) + 8 / 10)"
    by (simp add: tall_scan_sval)
  from v1 v2 less have "g2 ?c < g1 ?c" by (simp add: tall_scan_sval)
  with unit g2 v1 v2 show ?thesis
    by (simp add: foldE_spill_general st kMaxZSize_def k_NNTracking_def)
qed

subsection \<open>Where the unit-z branch and the loops agree\<close>

lemma foldE_spill_unit_z:
  "foldE (spill_unit_z st) pts g = spill_writes st (concat (map (unit_z_writes st) pts)) g"
proof -
  have "spill_unit_z st = (\<lambda>pt. spill_writes st (unit_z_writes st pt))"
    by (rule ext)+ (simp add: spill_unit_z_writes)
  then show ?thesis
    by (simp add: spill_writes_def foldE_concat foldE_map)
qed

lemma unit_z_interior:
  fixes n i :: int
  assumes "3 \<le> n" "1 \<le> i" "i \<le> n - 2"
  shows "min (max 1 i) (n - 2) = i"
    and "max 1 (min (n - 2) (i - 1)) \<le> min (min (max 1 i) (n - 2) + 1) (n - 2)"
    and "min (min (max 1 i) (n - 2) + 1) (n - 2) \<le> max 1 (min (n - 2) (i + 1))"
    and "max 1 (min (n - 2) (i - 1)) \<le> max 1 (min (max 1 i) (n - 2) - 1)"
    and "max 1 (min (max 1 i) (n - 2) - 1) \<le> max 1 (min (n - 2) (i + 1))"
    and "\<bar>i - min (min (max 1 i) (n - 2) + 1) (n - 2)\<bar> \<le> 1"
    and "\<bar>i - max 1 (min (max 1 i) (n - 2) - 1)\<bar> \<le> 1"
    and "max 1 (min (n - 2) (i - 1)) \<le> z \<Longrightarrow> z \<le> max 1 (min (n - 2) (i + 1)) \<Longrightarrow>
           z = i \<or> z = i + 1 \<and> i + 1 \<le> n - 2 \<or> z = i - 1 \<and> 1 \<le> i - 1"
  using assms by auto

text \<open>Every update of the loops with radius 1 is an update of the unit-z branch.\<close>

lemma general_in_unit_z:
  assumes rz: "num_spillover_steps_z st = 1" and sz: "3 \<le> zSize st"
    and iz: "1 \<le> z_index st pt" "z_index st pt \<le> zSize st - 2"
    and w: "(d, c) \<in> set (general_writes st pt)"
  shows "(d, c) \<in> set (unit_z_writes st pt)"
proof -
  from w obtain x y z where xy: "x \<in> {min_x_index st pt .. max_x_index st pt}"
      "y \<in> {min_y_index st pt .. max_y_index st pt}"
    and z: "z \<in> {min_z_index st pt .. max_z_index st pt}"
    and d: "d = (\<bar>x_index st pt - x\<bar>, \<bar>y_index st pt - y\<bar>, \<bar>z_index st pt - z\<bar>)"
    and c: "c = (x, y, z)"
    unfolding in_general_writes by blast
  from z rz have "max 1 (min (zSize st - 2) (z_index st pt - 1)) \<le> z"
    "z \<le> max 1 (min (zSize st - 2) (z_index st pt + 1))"
    by (simp_all add: min_z_index_def max_z_index_def)
  from unit_z_interior(8) [OF sz iz this]
  consider "z = z_index st pt" | "z = z_index st pt + 1" "z_index st pt + 1 \<le> zSize st - 2"
    | "z = z_index st pt - 1" "1 \<le> z_index st pt - 1" by blast
  then have "d = (\<bar>x_index st pt - x\<bar>, \<bar>y_index st pt - y\<bar>, 0) \<and> c = (x, y, z_spill st pt) \<or>
      d = (\<bar>x_index st pt - x\<bar>, \<bar>y_index st pt - y\<bar>, 1) \<and> c = (x, y, z_spill_up st pt) \<or>
      d = (\<bar>x_index st pt - x\<bar>, \<bar>y_index st pt - y\<bar>, 1) \<and> c = (x, y, z_spill_down st pt)"
    using iz sz by cases (auto simp: d c z_spill_def z_spill_up_def z_spill_down_def)
  with xy show ?thesis unfolding in_unit_z_writes by blast
qed

text \<open>Every update of the unit-z branch is matched by one of the loops, at the same cell and
  with a table index that is no farther along any axis.\<close>

lemma unit_z_in_general:
  assumes rz: "num_spillover_steps_z st = 1" and sz: "3 \<le> zSize st"
    and iz: "1 \<le> z_index st pt" "z_index st pt \<le> zSize st - 2"
    and w: "((i, j, k), c) \<in> set (unit_z_writes st pt)"
  shows "\<exists>k'. ((i, j, k'), c) \<in> set (general_writes st pt) \<and> 0 \<le> k' \<and> k' \<le> k \<and> k \<le> 1"
proof -
  from w obtain x y zc where xy: "x \<in> {min_x_index st pt .. max_x_index st pt}"
      "y \<in> {min_y_index st pt .. max_y_index st pt}"
    and ij: "i = \<bar>x_index st pt - x\<bar>" "j = \<bar>y_index st pt - y\<bar>" and c: "c = (x, y, zc)"
    and k: "k = 0 \<and> zc = z_spill st pt \<or> k = 1 \<and> zc = z_spill_up st pt \<or>
        k = 1 \<and> zc = z_spill_down st pt"
    unfolding in_unit_z_writes by blast
  note ui = unit_z_interior [OF sz iz]
  have win: "zc \<in> {min_z_index st pt .. max_z_index st pt}"
    using k ui(1-5) iz sz rz
    by (auto simp: min_z_index_def max_z_index_def z_spill_def z_spill_up_def z_spill_down_def)
  have diff: "\<bar>z_index st pt - zc\<bar> \<le> k \<and> k \<le> 1"
    using k ui(1,6,7) by (auto simp: z_spill_def z_spill_up_def z_spill_down_def)
  have "((i, j, \<bar>z_index st pt - zc\<bar>), c) \<in> set (general_writes st pt)"
    unfolding in_general_writes ij c using xy win by blast
  with diff show ?thesis by (intro exI [of _ "\<bar>z_index st pt - zc\<bar>"]) simp
qed

lemma unit_z_equals_general:
  assumes rz: "num_spillover_steps_z st = 1" and sz: "3 \<le> zSize st"
    and md: "0 \<le> min_density st"
    and iz: "\<And>pt. pt \<in> set pts \<Longrightarrow> 1 \<le> z_index st pt \<and> z_index st pt \<le> zSize st - 2"
  shows "foldE (spill_unit_z st) pts g = foldE (spill_general st) pts g"
proof -
  let ?wu = "concat (map (unit_z_writes st) pts)" and ?wg = "concat (map (general_writes st) pts)"
  have sub: "(d, c) \<in> set ?wu" if "(d, c) \<in> set ?wg" for d c
  proof -
    from that obtain pt where pt: "pt \<in> set pts" and w: "(d, c) \<in> set (general_writes st pt)"
      by auto
    from iz [OF pt] have "(d, c) \<in> set (unit_z_writes st pt)"
      by (intro general_in_unit_z [OF rz sz _ _ w]) simp_all
    with pt show ?thesis by auto
  qed
  have dom: "\<exists>k'. ((i, j, k'), c) \<in> set ?wg \<and> 0 \<le> k' \<and> k' \<le> k \<and> k \<le> 1"
    if "((i, j, k), c) \<in> set ?wu" for i j k c
  proof -
    from that obtain pt where pt: "pt \<in> set pts" and w: "((i, j, k), c) \<in> set (unit_z_writes st pt)"
      by auto
    from iz [OF pt] have "\<exists>k'. ((i, j, k'), c) \<in> set (general_writes st pt) \<and> 0 \<le> k' \<and> k' \<le> k \<and> k \<le> 1"
      by (intro unit_z_in_general [OF rz sz _ _ w]) simp_all
    with pt show ?thesis by auto
  qed
  have ok: "(\<forall>(d, c) \<in> set ?wu. table_ok st d \<and> allocated c) \<longleftrightarrow>
      (\<forall>(d, c) \<in> set ?wg. table_ok st d \<and> allocated c)"
  proof
    assume "\<forall>(d, c) \<in> set ?wu. table_ok st d \<and> allocated c"
    with sub show "\<forall>(d, c) \<in> set ?wg. table_ok st d \<and> allocated c" by blast
  next
    assume g: "\<forall>(d, c) \<in> set ?wg. table_ok st d \<and> allocated c"
    have "table_ok st d \<and> allocated c" if "(d, c) \<in> set ?wu" for d c
    proof -
      obtain i j k where d: "d = (i, j, k)" by (cases d)
      from dom [of i j k c] that d obtain k' where k': "((i, j, k'), c) \<in> set ?wg"
        "0 \<le> k'" "k' \<le> k" "k \<le> 1" by blast
      with g have "table_ok st (i, j, k') \<and> allocated c" by blast
      with k' rz show ?thesis by (simp add: d table_ok_def)
    qed
    then show "\<forall>(d, c) \<in> set ?wu. table_ok st d \<and> allocated c" by blast
  qed
  show ?thesis
  proof (cases "\<forall>(d, c) \<in> set ?wg. table_ok st d \<and> allocated c")
    case True
    with ok spill_writes_ok_iff [of st ?wu g] spill_writes_ok_iff [of st ?wg g]
    obtain gu gg where gu: "spill_writes st ?wu g = Inr gu" and gg: "spill_writes st ?wg g = Inr gg"
      by blast
    have "gu c = gg c" for c
    proof (rule antisym)
      from spill_writes_value [OF gu, of c]
      consider "gu c = g c" | d where "(d, c) \<in> set ?wu" "gu c = sval st d" by blast
      then show "gu c \<le> gg c"
      proof cases
        case 1
        then show ?thesis using spill_writes_mono [OF gg, of c] by simp
      next
        case 2
        obtain i j k where d: "d = (i, j, k)" by (cases d)
        from dom [of i j k c] 2(1) d obtain k' where k': "((i, j, k'), c) \<in> set ?wg"
          "0 \<le> k'" "k' \<le> k" by blast
        then have "sval st (i, j, k) \<le> sval st (i, j, k')"
          by (intro sval_antimono [OF md]) simp_all
        also have "\<dots> \<le> gg c" by (rule spill_writes_written [OF gg k'(1)])
        finally show ?thesis by (simp add: 2(2) d)
      qed
    next
      from spill_writes_value [OF gg, of c]
      consider "gg c = g c" | d where "(d, c) \<in> set ?wg" "gg c = sval st d" by blast
      then show "gg c \<le> gu c"
      proof cases
        case 1
        then show ?thesis using spill_writes_mono [OF gu, of c] by simp
      next
        case 2
        from sub [OF 2(1)] have "(d, c) \<in> set ?wu" .
        from spill_writes_written [OF gu this] 2(2) show ?thesis by simp
      qed
    qed
    then have "gu = gg" by (rule ext)
    with gu gg show ?thesis by (simp add: foldE_spill_unit_z foldE_spill_general)
  next
    case False
    with ok spill_writes_ok_iff [of st ?wu g] spill_writes_ok_iff [of st ?wg g]
    have nu: "\<not> (\<exists>g'. spill_writes st ?wu g = Inr g')" and ng: "\<not> (\<exists>g'. spill_writes st ?wg g = Inr g')"
      by blast+
    from nu obtain e where eu: "spill_writes st ?wu g = Inl e"
      by (cases "spill_writes st ?wu g") auto
    from ng obtain e' where eg: "spill_writes st ?wg g = Inl e'"
      by (cases "spill_writes st ?wg g") auto
    from spill_writes_Inl [OF eu] spill_writes_Inl [OF eg] eu eg show ?thesis
      by (simp add: foldE_spill_unit_z foldE_spill_general)
  qed
qed

text \<open>In a grid that is not clamped the two branches agree.\<close>

lemma unit_z_equals_general_unclamped:
  assumes xy: "0 < xy" and z: "0 < z" and fit: "z_cells ps z \<le> kMaxZSize"
    and rz: "num_spillover_steps_z (computeDensityGridSize st0 ps xy z hdist dsf) = 1"
  shows "foldE (spill_unit_z (computeDensityGridSize st0 ps xy z hdist dsf)) ps g =
         foldE (spill_general (computeDensityGridSize st0 ps xy z hdist dsf)) ps g"
proof (cases ps)
  case Nil
  then show ?thesis by simp
next
  case (Cons p ps')
  let ?st = "computeDensityGridSize st0 ps xy z hdist dsf"
  have p: "p \<in> set ps" using Cons by simp
  have size: "zSize ?st = z_cells ps z" "4 \<le> z_cells ps z"
    using fit cells_lower(3) [OF p z] by (simp_all add: computeDensityGridSize_fields)
  have md: "0 \<le> min_density ?st"
    by (simp add: computeDensityGridSize_fields kSmoothingFactor_def)
  have "1 \<le> z_index ?st pt \<and> z_index ?st pt \<le> zSize ?st - 2" if "pt \<in> set ps" for pt
    using index_bounds(3) [OF that z, of st0 xy hdist dsf] by (simp add: size)
  with rz size md show ?thesis
    by (intro unit_z_equals_general) simp_all
qed

end
